theory Spec2Isabelle
  imports Complex_Main "HOL-Library.Word" "HOL-Library.AList" "HOL-Library.List_Lexorder"
    "HOL-Library.Char_ord"
begin

unbundle bit_operations_syntax

section \<open>Vector kernel (world/transform: Vec3, AABBOps)\<close>

text \<open>
  The source computes with JavaScript numbers. On finite values the model computes
  with exact reals (no rounding, no overflow); the non-finite values are modelled
  separately where a routine produces them on purpose (the ray casts, below).
\<close>

text \<open>
  The fields \<open>x\<close>, \<open>y\<close>, \<open>z\<close> of the source's Vector3 are \<open>vx\<close>, \<open>vy\<close>, \<open>vz\<close>
  here, and \<open>min\<close>, \<open>max\<close> of its AABB are \<open>aabb_min\<close>, \<open>aabb_max\<close>.
\<close>

record Vector3 =
  vx :: real
  vy :: real
  vz :: real

record AABB =
  aabb_min :: Vector3
  aabb_max :: Vector3

definition Vec3_zero :: Vector3 where
  "Vec3_zero = \<lparr>vx = 0, vy = 0, vz = 0\<rparr>"

definition Vec3_add :: "Vector3 \<Rightarrow> Vector3 \<Rightarrow> Vector3" where
  "Vec3_add a b = \<lparr>vx = vx a + vx b, vy = vy a + vy b, vz = vz a + vz b\<rparr>"

definition Vec3_sub :: "Vector3 \<Rightarrow> Vector3 \<Rightarrow> Vector3" where
  "Vec3_sub a b = \<lparr>vx = vx a - vx b, vy = vy a - vy b, vz = vz a - vz b\<rparr>"

definition Vec3_mul :: "Vector3 \<Rightarrow> real \<Rightarrow> Vector3" where
  "Vec3_mul v s = \<lparr>vx = vx v * s, vy = vy v * s, vz = vz v * s\<rparr>"

definition Vec3_dot :: "Vector3 \<Rightarrow> Vector3 \<Rightarrow> real" where
  "Vec3_dot a b = vx a * vx b + vy a * vy b + vz a * vz b"

definition AABBOps_intersects :: "AABB \<Rightarrow> AABB \<Rightarrow> bool" where
  "AABBOps_intersects a b \<longleftrightarrow>
     vx (aabb_min a) \<le> vx (aabb_max b) \<and> vx (aabb_max a) \<ge> vx (aabb_min b) \<and>
     vy (aabb_min a) \<le> vy (aabb_max b) \<and> vy (aabb_max a) \<ge> vy (aabb_min b) \<and>
     vz (aabb_min a) \<le> vz (aabb_max b) \<and> vz (aabb_max a) \<ge> vz (aabb_min b)"

section \<open>Integrators (simulation/integrators)\<close>

record IntegratorState =
  position :: Vector3
  velocity :: Vector3
  acceleration :: Vector3

record IntegratorResult =
  res_position :: Vector3
  res_velocity :: Vector3

definition EulerIntegrator_integrate :: "IntegratorState \<Rightarrow> real \<Rightarrow> IntegratorResult" where
  "EulerIntegrator_integrate state dt =
     (let newVelocity = Vec3_add (velocity state) (Vec3_mul (acceleration state) dt);
          newPosition = Vec3_add (position state) (Vec3_mul (velocity state) dt)
      in \<lparr>res_position = newPosition, res_velocity = newVelocity\<rparr>)"

definition SemiImplicitEulerIntegrator_integrate ::
    "IntegratorState \<Rightarrow> real \<Rightarrow> IntegratorResult" where
  "SemiImplicitEulerIntegrator_integrate state dt =
     (let newVelocity = Vec3_add (velocity state) (Vec3_mul (acceleration state) dt);
          newPosition = Vec3_add (position state) (Vec3_mul newVelocity dt)
      in \<lparr>res_position = newPosition, res_velocity = newVelocity\<rparr>)"

text \<open>
  The Verlet integrator owns one mutable field, \<open>prevAcceleration\<close>; the model
  passes it in and returns its new value next to the result.
\<close>

definition VerletIntegrator_integrate ::
    "Vector3 \<Rightarrow> IntegratorState \<Rightarrow> real \<Rightarrow> IntegratorResult \<times> Vector3" where
  "VerletIntegrator_integrate prevAcceleration state dt =
     (let dt2 = dt * dt;
          halfDt = dt * 0.5;
          velTerm = Vec3_mul (velocity state) dt;
          accTerm = Vec3_mul (acceleration state) (dt2 * 0.5);
          newPosition = Vec3_add (Vec3_add (position state) velTerm) accTerm;
          avgAcc = Vec3_mul (Vec3_add prevAcceleration (acceleration state)) halfDt;
          newVelocity = Vec3_add (velocity state) avgAcc
      in (\<lparr>res_position = newPosition, res_velocity = newVelocity\<rparr>, acceleration state))"

definition RK4Integrator_integrate :: "IntegratorState \<Rightarrow> real \<Rightarrow> IntegratorResult" where
  "RK4Integrator_integrate state dt =
     (let k1v = Vec3_mul (acceleration state) dt;
          k1p = Vec3_mul (velocity state) dt;
          k2v = Vec3_mul (acceleration state) dt;
          k2p = Vec3_mul (Vec3_add (velocity state) (Vec3_mul k1v 0.5)) dt;
          k3v = Vec3_mul (acceleration state) dt;
          k3p = Vec3_mul (Vec3_add (velocity state) (Vec3_mul k2v 0.5)) dt;
          k4v = Vec3_mul (acceleration state) dt;
          k4p = Vec3_mul (Vec3_add (velocity state) k3v) dt;
          dv = Vec3_mul (Vec3_add (Vec3_add k1v (Vec3_mul k2v 2))
                                  (Vec3_add (Vec3_mul k3v 2) k4v)) (1/6);
          dp = Vec3_mul (Vec3_add (Vec3_add k1p (Vec3_mul k2p 2))
                                  (Vec3_add (Vec3_mul k3p 2) k4p)) (1/6)
      in \<lparr>res_position = Vec3_add (position state) dp,
          res_velocity = Vec3_add (velocity state) dv\<rparr>)"

section \<open>Contact resolution (collision/response)\<close>

record PhysicsBody =
  body_id :: string
  body_position :: Vector3
  body_velocity :: Vector3
  angularVelocity :: Vector3
  mass :: real
  inverseMass :: real
  friction :: real
  restitution :: real
  isStatic :: bool

record ContactPoint =
  contact_position :: Vector3
  normal :: Vector3
  penetration :: real
  contact_impulse :: real
  tangentImpulse :: Vector3

record BodyOut =
  out_velocity :: Vector3
  out_position :: Vector3

record ContactResolutionResult =
  bodyA :: BodyOut
  bodyB :: BodyOut
  impulse :: real

definition resolveContact ::
    "PhysicsBody \<Rightarrow> PhysicsBody \<Rightarrow> ContactPoint \<Rightarrow> ContactResolutionResult" where
  "resolveContact a b contact =
     (if isStatic a \<and> isStatic b then
        \<lparr>bodyA = \<lparr>out_velocity = body_velocity a, out_position = body_position a\<rparr>,
         bodyB = \<lparr>out_velocity = body_velocity b, out_position = body_position b\<rparr>,
         impulse = 0\<rparr>
      else
        let n = normal contact;
            relativeVelocity = Vec3_sub (body_velocity b) (body_velocity a);
            velocityAlongNormal = Vec3_dot relativeVelocity n
        in if velocityAlongNormal > 0 then
             \<lparr>bodyA = \<lparr>out_velocity = body_velocity a, out_position = body_position a\<rparr>,
              bodyB = \<lparr>out_velocity = body_velocity b, out_position = body_position b\<rparr>,
              impulse = 0\<rparr>
           else
             let e = (if restitution a \<le> restitution b then restitution a else restitution b);
                 inverseMassSum = inverseMass a + inverseMass b
             in if inverseMassSum = 0 then
                  \<lparr>bodyA = \<lparr>out_velocity = body_velocity a, out_position = body_position a\<rparr>,
                   bodyB = \<lparr>out_velocity = body_velocity b, out_position = body_position b\<rparr>,
                   impulse = 0\<rparr>
                else
                  let j = (- (1 + e) * velocityAlongNormal) / inverseMassSum;
                      imp = Vec3_mul n j;
                      newVelA = Vec3_sub (body_velocity a) (Vec3_mul imp (inverseMass a));
                      newVelB = Vec3_add (body_velocity b) (Vec3_mul imp (inverseMass b));
                      percent = 0.8;
                      slop = 0.01;
                      correction = Vec3_mul n
                        ((if penetration contact - slop \<ge> 0 then penetration contact - slop else 0)
                           / inverseMassSum * percent);
                      newPosA = (if isStatic a then body_position a
                                 else Vec3_sub (body_position a)
                                        (Vec3_mul correction (inverseMass a)));
                      newPosB = (if isStatic b then body_position b
                                 else Vec3_add (body_position b)
                                        (Vec3_mul correction (inverseMass b)))
                  in \<lparr>bodyA = \<lparr>out_velocity = newVelA, out_position = newPosA\<rparr>,
                      bodyB = \<lparr>out_velocity = newVelB, out_position = newPosB\<rparr>,
                      impulse = j\<rparr>)"

section \<open>State snapshots (world/state)\<close>

record Quaternion =
  qx :: real
  qy :: real
  qz :: real
  qw :: real

record Transform =
  tr_position :: Vector3
  tr_rotation :: Quaternion
  tr_scale :: Vector3

datatype EntityStatus = Active | Idle | Moving | Collision | Disabled

text \<open>
  \<open>customState\<close> is an optional record of unknown values; the model keeps it as an
  optional list of key and value strings.
\<close>

record EntityState =
  es_id :: string
  es_transform :: Transform
  es_velocity :: Vector3
  es_angularVelocity :: Vector3
  es_acceleration :: Vector3
  es_status :: EntityStatus
  es_customState :: "(string \<times> string) list option"

record WorldState =
  ws_time :: real
  ws_gravity :: Vector3
  ws_bounds :: AABB
  ws_activeEntityCount :: nat
  ws_totalCollisions :: real

text \<open>
  A JavaScript Map keeps its keys in insertion order, and \<open>set\<close> on a key that is
  present replaces the value in place: an association list with \<open>AList.update\<close>.
\<close>

record StateSnapshot =
  ss_version :: real
  ss_timestamp :: real
  ss_step :: real
  ss_entities :: "(string \<times> EntityState) list"
  ss_worldState :: WorldState
  ss_hash :: string

text \<open>
  The serialized entity: \<open>pos\<close>, \<open>rot\<close> and \<open>vel\<close> are fixed-length tuples in the
  source. \<open>status\<close> is typed string there and cast back unchecked by
  \<open>deserializeState\<close>; the model keeps the status value itself.
\<close>

record SerializedEntity =
  se_id :: string
  se_pos :: "real \<times> real \<times> real"
  se_rot :: "real \<times> real \<times> real \<times> real"
  se_vel :: "real \<times> real \<times> real"
  se_status :: EntityStatus

record SerializedWorld =
  sw_time :: real
  sw_gravity :: "real \<times> real \<times> real"
  sw_collisions :: real

record SerializedState =
  sd_v :: real
  sd_ts :: real
  sd_step :: real
  sd_entities :: "SerializedEntity list"
  sd_world :: SerializedWorld
  sd_hash :: string

definition serializeEntity :: "EntityState \<Rightarrow> SerializedEntity" where
  "serializeEntity e =
     \<lparr>se_id = es_id e,
      se_pos = (vx (tr_position (es_transform e)), vy (tr_position (es_transform e)),
                vz (tr_position (es_transform e))),
      se_rot = (qx (tr_rotation (es_transform e)), qy (tr_rotation (es_transform e)),
                qz (tr_rotation (es_transform e)), qw (tr_rotation (es_transform e))),
      se_vel = (vx (es_velocity e), vy (es_velocity e), vz (es_velocity e)),
      se_status = es_status e\<rparr>"

definition serializeState :: "StateSnapshot \<Rightarrow> SerializedState" where
  "serializeState state =
     \<lparr>sd_v = ss_version state,
      sd_ts = ss_timestamp state,
      sd_step = ss_step state,
      sd_entities = map (\<lambda>(k, e). serializeEntity e) (ss_entities state),
      sd_world = \<lparr>sw_time = ws_time (ss_worldState state),
                  sw_gravity = (vx (ws_gravity (ss_worldState state)),
                                vy (ws_gravity (ss_worldState state)),
                                vz (ws_gravity (ss_worldState state))),
                  sw_collisions = ws_totalCollisions (ss_worldState state)\<rparr>,
      sd_hash = ss_hash state\<rparr>"

definition deserializeEntity :: "SerializedEntity \<Rightarrow> EntityState" where
  "deserializeEntity e =
     (case se_pos e of (p0, p1, p2) \<Rightarrow>
      case se_rot e of (r0, r1, r2, r3) \<Rightarrow>
      case se_vel e of (v0, v1, v2) \<Rightarrow>
        \<lparr>es_id = se_id e,
         es_transform = \<lparr>tr_position = \<lparr>vx = p0, vy = p1, vz = p2\<rparr>,
                         tr_rotation = \<lparr>qx = r0, qy = r1, qz = r2, qw = r3\<rparr>,
                         tr_scale = \<lparr>vx = 1, vy = 1, vz = 1\<rparr>\<rparr>,
         es_velocity = \<lparr>vx = v0, vy = v1, vz = v2\<rparr>,
         es_angularVelocity = \<lparr>vx = 0, vy = 0, vz = 0\<rparr>,
         es_acceleration = \<lparr>vx = 0, vy = 0, vz = 0\<rparr>,
         es_status = se_status e,
         es_customState = None\<rparr>)"

definition default_bounds :: AABB where
  "default_bounds = \<lparr>aabb_min = \<lparr>vx = -1000, vy = -100, vz = -1000\<rparr>,
                     aabb_max = \<lparr>vx = 1000, vy = 1000, vz = 1000\<rparr>\<rparr>"

definition deserializeState :: "SerializedState \<Rightarrow> StateSnapshot" where
  "deserializeState data =
     (let entities = foldl (\<lambda>m e. AList.update (se_id e) (deserializeEntity e) m) []
                       (sd_entities data)
      in \<lparr>ss_version = sd_v data,
          ss_timestamp = sd_ts data,
          ss_step = sd_step data,
          ss_entities = entities,
          ss_worldState =
            (case sw_gravity (sd_world data) of (g0, g1, g2) \<Rightarrow>
               \<lparr>ws_time = sw_time (sd_world data),
                ws_gravity = \<lparr>vx = g0, vy = g1, vz = g2\<rparr>,
                ws_bounds = default_bounds,
                ws_activeEntityCount = length entities,
                ws_totalCollisions = sw_collisions (sd_world data)\<rparr>),
          ss_hash = sd_hash data\<rparr>)"

text \<open>
  What \<open>StateBuilder\<close> guarantees of every snapshot it builds: each entity is stored
  under its own id (\<open>addEntity\<close> uses \<open>state.id\<close> as the key), and a Map has no key
  twice.
\<close>

definition entities_keyed_by_id :: "(string \<times> EntityState) list \<Rightarrow> bool" where
  "entities_keyed_by_id ents \<longleftrightarrow>
     distinct (map fst ents) \<and> list_all (\<lambda>(k, e). k = es_id e) ents"

definition snapshot_keyed_by_id :: "StateSnapshot \<Rightarrow> bool" where
  "snapshot_keyed_by_id s \<longleftrightarrow> entities_keyed_by_id (ss_entities s)"

text \<open>The entity map of \<open>StateBuilder\<close>: \<open>addEntity\<close> and \<open>removeEntity\<close>.\<close>

definition StateBuilder_addEntity ::
    "EntityState \<Rightarrow> (string \<times> EntityState) list \<Rightarrow> (string \<times> EntityState) list" where
  "StateBuilder_addEntity state ents = AList.update (es_id state) state ents"

definition StateBuilder_removeEntity ::
    "string \<Rightarrow> (string \<times> EntityState) list \<Rightarrow> (string \<times> EntityState) list" where
  "StateBuilder_removeEntity k ents = AList.delete k ents"

section \<open>Seeded random numbers (simulation/deterministic: SeededRandom)\<close>

text \<open>
  Seeds and the generator's state are JavaScript numbers holding integers. The state
  is not reduced modulo 2^32 when it is stored (\<open>this.state += 0x6d2b79f5\<close>), only when
  the bit operations read it, so it is an unbounded integer here; the bit operations
  work on its low 32 bits.
\<close>

record SeededRandom =
  rng_state :: int
  initialSeed :: int
  subsystem :: string

definition SeededRandom_new :: "int \<Rightarrow> string \<Rightarrow> SeededRandom" where
  "SeededRandom_new seed sub = \<lparr>rng_state = seed, initialSeed = seed, subsystem = sub\<rparr>"

text \<open>\<open>next\<close> returns the number drawn and the generator with its state advanced.\<close>

definition SeededRandom_next :: "SeededRandom \<Rightarrow> real \<times> SeededRandom" where
  "SeededRandom_next r =
     (let st = rng_state r + 0x6d2b79f5;
          t0 = (word_of_int st :: 32 word);
          t1 = (t0 XOR drop_bit 15 t0) * (t0 OR 1);
          t2 = t1 XOR (t1 + (t1 XOR drop_bit 7 t1) * (t1 OR 61))
      in (real (unat (t2 XOR drop_bit 14 t2)) / 4294967296, r\<lparr>rng_state := st\<rparr>))"

text \<open>The decimal rendering of an integer, as a template literal produces it.\<close>

fun digit_char :: "nat \<Rightarrow> char" where
  "digit_char n = char_of (48 + n)"

function decimal_digits :: "nat \<Rightarrow> string" where
  "decimal_digits n = (if n < 10 then [digit_char n]
                       else decimal_digits (n div 10) @ [digit_char (n mod 10)])"
  by pat_completeness auto
termination
  by (relation "measure id") auto

definition number_to_string :: "int \<Rightarrow> string" where
  "number_to_string i = (if i < 0 then CHR ''-'' # decimal_digits (nat (- i))
                         else decimal_digits (nat i))"

text \<open>
  \<open>hashString\<close>: \<open>hash = ((hash << 5) - hash) + char; hash = hash | 0\<close> over the
  characters, then \<open>Math.abs\<close> of the signed 32-bit value.
\<close>

definition hashString_step :: "32 word \<Rightarrow> char \<Rightarrow> 32 word" where
  "hashString_step h c = (push_bit 5 h - h) + of_char c"

definition hashString :: "string \<Rightarrow> int" where
  "hashString str = \<bar>sint (foldl hashString_step 0 str)\<bar>"

text \<open>
  \<open>fork\<close> is a method of the parent generator: it returns the child and the parent
  as the call leaves it.
\<close>

definition SeededRandom_fork :: "string \<Rightarrow> SeededRandom \<Rightarrow> SeededRandom \<times> SeededRandom" where
  "SeededRandom_fork sub r =
     (let derivedSeed = hashString (number_to_string (initialSeed r) @ '':'' @ subsystem r
                                      @ '':'' @ sub)
      in (SeededRandom_new derivedSeed sub, r))"

text \<open>The first n outputs of \<open>next\<close>, drawn one after the other.\<close>

fun next_outputs :: "nat \<Rightarrow> SeededRandom \<Rightarrow> real list" where
  "next_outputs 0 r = []"
| "next_outputs (Suc n) r =
     (case SeededRandom_next r of (v, r') \<Rightarrow> v # next_outputs n r')"

section \<open>Fixed-step clock (simulation/deterministic: DeterministicRuntime)\<close>

record DeterministicConfig =
  fixedTimestep :: real
  maxSubsteps :: real
  deterministicOrder :: bool
  validateDeterminism :: bool
  seed :: "int option"

record DeterministicRuntime =
  config :: DeterministicConfig
  accumulator :: real
  currentStep :: nat
  stepHashes :: "32 word list"

text \<open>
  The while loop of \<open>advance\<close>. The step callback is a state transformer on the caller's
  state \<open>'s\<close>, called with the timestep and the step number. The loop does not end when
  the timestep is not positive, so the result is optional: \<open>None\<close> is a loop that never
  returns.
\<close>

partial_function (option) advance_loop ::
    "real \<Rightarrow> (real \<Rightarrow> nat \<Rightarrow> 's \<Rightarrow> 's) \<Rightarrow> real \<Rightarrow> nat \<Rightarrow> nat \<Rightarrow> 's
      \<Rightarrow> (real \<times> nat \<times> nat \<times> 's) option" where
  "advance_loop ts stepCallback acc cur stepsTaken s =
     (if acc \<ge> ts
      then advance_loop ts stepCallback (acc - ts) (cur + 1) (stepsTaken + 1)
             (stepCallback ts cur s)
      else Some (acc, cur, stepsTaken, s))"

definition advance ::
    "real \<Rightarrow> (real \<Rightarrow> nat \<Rightarrow> 's \<Rightarrow> 's) \<Rightarrow> DeterministicRuntime \<times> 's
      \<Rightarrow> (nat \<times> DeterministicRuntime \<times> 's) option" where
  "advance deltaTime stepCallback rs =
     (case rs of (rt, s) \<Rightarrow>
        let acc0 = accumulator rt + deltaTime;
            maxTime = fixedTimestep (config rt) * maxSubsteps (config rt);
            acc1 = (if acc0 > maxTime then maxTime else acc0)
        in (case advance_loop (fixedTimestep (config rt)) stepCallback acc1 (currentStep rt) 0 s of
              None \<Rightarrow> None
            | Some (acc, cur, stepsTaken, s') \<Rightarrow>
                Some (stepsTaken, rt\<lparr>accumulator := acc, currentStep := cur\<rparr>, s')))"

text \<open>A callback that records each of its invocations.\<close>

definition log_call :: "real \<Rightarrow> nat \<Rightarrow> (real \<times> nat) list \<Rightarrow> (real \<times> nat) list" where
  "log_call dt step calls = calls @ [(dt, step)]"


definition DeterministicRuntime_new :: "real \<Rightarrow> real \<Rightarrow> DeterministicRuntime" where
  "DeterministicRuntime_new ts ms =
     \<lparr>config = \<lparr>fixedTimestep = ts, maxSubsteps = ms, deterministicOrder = True,
                validateDeterminism = False, seed = None\<rparr>,
      accumulator = 0, currentStep = 0, stepHashes = []\<rparr>"

section \<open>Concrete inputs used by the witnesses\<close>

definition example_bodyA :: PhysicsBody where
  "example_bodyA = \<lparr>body_id = ''a'', body_position = \<lparr>vx = 0, vy = 0, vz = 0\<rparr>,
     body_velocity = \<lparr>vx = -1, vy = 0, vz = 0\<rparr>, angularVelocity = Vec3_zero,
     mass = 2, inverseMass = 1/2, friction = 0.5, restitution = 0.3, isStatic = False\<rparr>"

definition example_bodyB :: PhysicsBody where
  "example_bodyB = \<lparr>body_id = ''b'', body_position = \<lparr>vx = 1, vy = 0, vz = 0\<rparr>,
     body_velocity = \<lparr>vx = 1, vy = 0, vz = 0\<rparr>, angularVelocity = Vec3_zero,
     mass = 1, inverseMass = 1, friction = 0.5, restitution = 0.3, isStatic = False\<rparr>"

definition example_contact :: ContactPoint where
  "example_contact = \<lparr>contact_position = \<lparr>vx = 1/2, vy = 0, vz = 0\<rparr>,
     normal = \<lparr>vx = 1, vy = 0, vz = 0\<rparr>, penetration = 0.5, contact_impulse = 0,
     tangentImpulse = Vec3_zero\<rparr>"

definition example_entity :: "string \<Rightarrow> real \<Rightarrow> EntityStatus \<Rightarrow> EntityState" where
  "example_entity i h st =
     \<lparr>es_id = i,
      es_transform = \<lparr>tr_position = \<lparr>vx = 0, vy = h, vz = 3\<rparr>,
                      tr_rotation = \<lparr>qx = 0, qy = 0, qz = 0, qw = 1\<rparr>,
                      tr_scale = \<lparr>vx = 2, vy = 2, vz = 2\<rparr>\<rparr>,
      es_velocity = \<lparr>vx = 1, vy = 0, vz = -1\<rparr>,
      es_angularVelocity = \<lparr>vx = 0, vy = 1, vz = 0\<rparr>,
      es_acceleration = \<lparr>vx = 0, vy = 0, vz = 0\<rparr>,
      es_status = st,
      es_customState = Some [(''target'', ''dock'')]\<rparr>"

definition example_snapshot :: StateSnapshot where
  "example_snapshot =
     \<lparr>ss_version = 3, ss_timestamp = 1700000000000, ss_step = 7,
      ss_entities = [(''drone_1'', example_entity ''drone_1'' 50 Moving),
                     (''robot_1'', example_entity ''robot_1'' 0 Idle)],
      ss_worldState = \<lparr>ws_time = 0.112, ws_gravity = \<lparr>vx = 0, vy = -9.81, vz = 0\<rparr>,
                       ws_bounds = \<lparr>aabb_min = \<lparr>vx = -50, vy = 0, vz = -50\<rparr>,
                                    aabb_max = \<lparr>vx = 50, vy = 100, vz = 50\<rparr>\<rparr>,
                       ws_activeEntityCount = 2, ws_totalCollisions = 0\<rparr>,
      ss_hash = ''000000004a7f3c21''\<rparr>"

section \<open>Broadphase backends (collision/broadphase)\<close>

text \<open>
  Entity ids are strings; \<open><\<close> on them is the lexicographic order on character codes,
  as JavaScript compares strings.
\<close>

record CollisionPair =
  entityA :: string
  entityB :: string

record BroadphaseResult =
  pairs :: "CollisionPair list"
  checksPerformed :: nat

subsection \<open>SimpleBroadphase\<close>

text \<open>The state is the Map \<open>entities\<close>, in insertion order.\<close>

type_synonym SimpleBroadphase = "(string \<times> AABB) list"

definition SimpleBroadphase_insert ::
    "string \<Rightarrow> AABB \<Rightarrow> SimpleBroadphase \<Rightarrow> SimpleBroadphase" where
  "SimpleBroadphase_insert i bounds entities = AList.update i bounds entities"

definition SimpleBroadphase_update ::
    "string \<Rightarrow> AABB \<Rightarrow> SimpleBroadphase \<Rightarrow> SimpleBroadphase" where
  "SimpleBroadphase_update i bounds entities = AList.update i bounds entities"

definition SimpleBroadphase_remove :: "string \<Rightarrow> SimpleBroadphase \<Rightarrow> SimpleBroadphase" where
  "SimpleBroadphase_remove i entities = AList.delete i entities"

text \<open>
  The two nested iterations of \<open>queryPairs\<close>: the outer one takes \<open>entries[i]\<close>, the inner one runs
  over the entries after it. The accumulator is \<open>(pairs, checks)\<close>.
\<close>

fun simple_inner ::
    "string \<times> AABB \<Rightarrow> (string \<times> AABB) list \<Rightarrow> CollisionPair list \<times> nat
      \<Rightarrow> CollisionPair list \<times> nat" where
  "simple_inner a [] acc = acc"
| "simple_inner a (b # bs) (ps, checks) =
     simple_inner a bs
       (if AABBOps_intersects (snd a) (snd b)
        then ps @ [\<lparr>entityA = fst a, entityB = fst b\<rparr>] else ps,
        checks + 1)"

fun simple_outer ::
    "(string \<times> AABB) list \<Rightarrow> CollisionPair list \<times> nat \<Rightarrow> CollisionPair list \<times> nat" where
  "simple_outer [] acc = acc"
| "simple_outer (a # rest) acc = simple_outer rest (simple_inner a rest acc)"

definition SimpleBroadphase_queryPairs :: "SimpleBroadphase \<Rightarrow> BroadphaseResult" where
  "SimpleBroadphase_queryPairs entities =
     (case simple_outer entities ([], 0) of
        (ps, checks) \<Rightarrow> \<lparr>pairs = ps, checksPerformed = checks\<rparr>)"

subsection \<open>SpatialHashBroadphase\<close>

text \<open>
  A cell key is the string \<open>x,y,z\<close> of three integers in the source; the model keeps the
  triple. A Set of ids is a list without repetition, in insertion order.
\<close>

type_synonym cell = "int \<times> int \<times> int"

record SpatialHashBroadphase =
  cellSize :: real
  cells :: "(cell \<times> string list) list"
  entityBounds :: "(string \<times> AABB) list"
  entityCells :: "(string \<times> cell list) list"

definition SpatialHashBroadphase_new :: "real \<Rightarrow> SpatialHashBroadphase" where
  "SpatialHashBroadphase_new cs =
     \<lparr>cellSize = cs, cells = [], entityBounds = [], entityCells = []\<rparr>"

definition getCellsForBounds :: "real \<Rightarrow> AABB \<Rightarrow> cell list" where
  "getCellsForBounds cs bounds =
     (let minX = \<lfloor>vx (aabb_min bounds) / cs\<rfloor>; maxX = \<lfloor>vx (aabb_max bounds) / cs\<rfloor>;
          minY = \<lfloor>vy (aabb_min bounds) / cs\<rfloor>; maxY = \<lfloor>vy (aabb_max bounds) / cs\<rfloor>;
          minZ = \<lfloor>vz (aabb_min bounds) / cs\<rfloor>; maxZ = \<lfloor>vz (aabb_max bounds) / cs\<rfloor>
      in concat (map (\<lambda>cx. concat (map (\<lambda>cy. map (\<lambda>cz. (cx, cy, cz)) [minZ..maxZ])
                                       [minY..maxY]))
                     [minX..maxX]))"

definition set_add :: "string \<Rightarrow> string list \<Rightarrow> string list" where
  "set_add i ids = (if i \<in> set ids then ids else ids @ [i])"

definition set_delete :: "string \<Rightarrow> string list \<Rightarrow> string list" where
  "set_delete i ids = removeAll i ids"

text \<open>One round of the loop adding an id to a cell, creating the cell's set when absent.\<close>

definition add_to_cell ::
    "string \<Rightarrow> (cell \<times> string list) list \<Rightarrow> cell \<Rightarrow> (cell \<times> string list) list" where
  "add_to_cell i m c =
     (case map_of m c of
        None \<Rightarrow> AList.update c (set_add i []) m
      | Some ids \<Rightarrow> AList.update c (set_add i ids) m)"

definition delete_from_cell ::
    "string \<Rightarrow> (cell \<times> string list) list \<Rightarrow> cell \<Rightarrow> (cell \<times> string list) list" where
  "delete_from_cell i m c =
     (case map_of m c of
        None \<Rightarrow> m
      | Some ids \<Rightarrow> AList.update c (set_delete i ids) m)"

definition SpatialHashBroadphase_insert ::
    "string \<Rightarrow> AABB \<Rightarrow> SpatialHashBroadphase \<Rightarrow> SpatialHashBroadphase" where
  "SpatialHashBroadphase_insert i bounds st =
     (let cs = getCellsForBounds (cellSize st) bounds
      in st\<lparr>entityBounds := AList.update i bounds (entityBounds st),
            entityCells := AList.update i cs (entityCells st),
            cells := foldl (add_to_cell i) (cells st) cs\<rparr>)"

definition SpatialHashBroadphase_update ::
    "string \<Rightarrow> AABB \<Rightarrow> SpatialHashBroadphase \<Rightarrow> SpatialHashBroadphase" where
  "SpatialHashBroadphase_update i bounds st =
     (let oldCells = (case map_of (entityCells st) i of None \<Rightarrow> [] | Some cs \<Rightarrow> cs);
          cells1 = foldl (delete_from_cell i) (cells st) oldCells;
          newCells = getCellsForBounds (cellSize st) bounds
      in st\<lparr>entityBounds := AList.update i bounds (entityBounds st),
            entityCells := AList.update i newCells (entityCells st),
            cells := foldl (add_to_cell i) cells1 newCells\<rparr>)"

definition SpatialHashBroadphase_remove ::
    "string \<Rightarrow> SpatialHashBroadphase \<Rightarrow> SpatialHashBroadphase" where
  "SpatialHashBroadphase_remove i st =
     (let oldCells = (case map_of (entityCells st) i of None \<Rightarrow> [] | Some cs \<Rightarrow> cs)
      in st\<lparr>cells := foldl (delete_from_cell i) (cells st) oldCells,
            entityBounds := AList.delete i (entityBounds st),
            entityCells := AList.delete i (entityCells st)\<rparr>)"

text \<open>
  The key of a pair in the result Map is the string \<open>idA:idB\<close>, smaller id first. The
  accumulator of the iteration is \<open>(pairs, checks)\<close> with \<open>pairs\<close> the Map from key to pair.
\<close>

definition pair_key :: "string \<Rightarrow> string \<Rightarrow> string" where
  "pair_key idA idB = (if idA < idB then idA @ '':'' @ idB else idB @ '':'' @ idA)"

fun hash_inner ::
    "(string \<times> AABB) list \<Rightarrow> string \<Rightarrow> string list
      \<Rightarrow> (string \<times> CollisionPair) list \<times> nat \<Rightarrow> (string \<times> CollisionPair) list \<times> nat" where
  "hash_inner eb idA [] acc = acc"
| "hash_inner eb idA (idB # rest) (ps, checks) =
     (let key = pair_key idA idB
      in if map_of ps key \<noteq> None then hash_inner eb idA rest (ps, checks)
         else hash_inner eb idA rest
                (case (map_of eb idA, map_of eb idB) of
                   (Some boundsA, Some boundsB) \<Rightarrow>
                     if AABBOps_intersects boundsA boundsB
                     then AList.update key
                            \<lparr>entityA = (if idA < idB then idA else idB),
                             entityB = (if idA < idB then idB else idA)\<rparr> ps
                     else ps
                 | _ \<Rightarrow> ps,
                 checks + 1))"

fun hash_cell ::
    "(string \<times> AABB) list \<Rightarrow> string list
      \<Rightarrow> (string \<times> CollisionPair) list \<times> nat \<Rightarrow> (string \<times> CollisionPair) list \<times> nat" where
  "hash_cell eb [] acc = acc"
| "hash_cell eb (idA # rest) acc = hash_cell eb rest (hash_inner eb idA rest acc)"

definition SpatialHashBroadphase_queryPairs :: "SpatialHashBroadphase \<Rightarrow> BroadphaseResult" where
  "SpatialHashBroadphase_queryPairs st =
     (case foldl (\<lambda>acc (c, ids). hash_cell (entityBounds st) ids acc) ([], 0) (cells st) of
        (ps, checks) \<Rightarrow> \<lparr>pairs = map snd ps, checksPerformed = checks\<rparr>)"

subsection \<open>SweepAndPruneBroadphase\<close>

record SAPEntry =
  sap_id :: string
  sap_bounds :: AABB
  minX :: real
  maxX :: real

record SweepAndPruneBroadphase =
  entries :: "SAPEntry list"
  entityMap :: "(string \<times> nat) list"

definition SweepAndPruneBroadphase_new :: SweepAndPruneBroadphase where
  "SweepAndPruneBroadphase_new = \<lparr>entries = [], entityMap = []\<rparr>"

definition SweepAndPruneBroadphase_insert ::
    "string \<Rightarrow> AABB \<Rightarrow> SweepAndPruneBroadphase \<Rightarrow> SweepAndPruneBroadphase" where
  "SweepAndPruneBroadphase_insert i bounds st =
     (let entry = \<lparr>sap_id = i, sap_bounds = bounds,
                   minX = vx (aabb_min bounds), maxX = vx (aabb_max bounds)\<rparr>
      in \<lparr>entries = entries st @ [entry],
          entityMap = AList.update i (length (entries st)) (entityMap st)\<rparr>)"

text \<open>
  The inner loop leaves at the first entry whose \<open>minX\<close> is past \<open>entryA.maxX\<close>
  (\<open>break\<close>).
\<close>

fun sap_inner ::
    "SAPEntry \<Rightarrow> SAPEntry list \<Rightarrow> CollisionPair list \<times> nat \<Rightarrow> CollisionPair list \<times> nat" where
  "sap_inner a [] acc = acc"
| "sap_inner a (b # bs) (ps, checks) =
     (if minX b > maxX a then (ps, checks)
      else sap_inner a bs
             (if AABBOps_intersects (sap_bounds a) (sap_bounds b)
              then ps @ [\<lparr>entityA = (if sap_id a < sap_id b then sap_id a else sap_id b),
                          entityB = (if sap_id a < sap_id b then sap_id b else sap_id a)\<rparr>]
              else ps,
              checks + 1))"

fun sap_outer ::
    "SAPEntry list \<Rightarrow> CollisionPair list \<times> nat \<Rightarrow> CollisionPair list \<times> nat" where
  "sap_outer [] acc = acc"
| "sap_outer (a # rest) acc = sap_outer rest (sap_inner a rest acc)"

text \<open>
  \<open>queryPairs\<close> sorts \<open>entries\<close> in place (a stable sort by \<open>minX\<close>) and leaves them
  sorted; it returns the result and the backend as the call leaves it.
\<close>

definition SweepAndPruneBroadphase_queryPairs ::
    "SweepAndPruneBroadphase \<Rightarrow> BroadphaseResult \<times> SweepAndPruneBroadphase" where
  "SweepAndPruneBroadphase_queryPairs st =
     (let sorted_entries = sort_key minX (entries st)
      in case sap_outer sorted_entries ([], 0) of
           (ps, checks) \<Rightarrow>
             (\<lparr>pairs = ps, checksPerformed = checks\<rparr>, st\<lparr>entries := sorted_entries\<rparr>))"

subsection \<open>Feeding the same insertions to the three backends\<close>

definition simple_of :: "(string \<times> AABB) list \<Rightarrow> SimpleBroadphase" where
  "simple_of ins = foldl (\<lambda>st (i, b). SimpleBroadphase_insert i b st) [] ins"

definition spatial_hash_of :: "real \<Rightarrow> (string \<times> AABB) list \<Rightarrow> SpatialHashBroadphase" where
  "spatial_hash_of cs ins =
     foldl (\<lambda>st (i, b). SpatialHashBroadphase_insert i b st) (SpatialHashBroadphase_new cs) ins"

definition sweep_and_prune_of :: "(string \<times> AABB) list \<Rightarrow> SweepAndPruneBroadphase" where
  "sweep_and_prune_of ins =
     foldl (\<lambda>st (i, b). SweepAndPruneBroadphase_insert i b st) SweepAndPruneBroadphase_new ins"

text \<open>The comparison of results: each pair put smaller id first, then the set of pairs.\<close>

definition canonical_pair :: "CollisionPair \<Rightarrow> CollisionPair" where
  "canonical_pair p =
     (if entityA p < entityB p then p else \<lparr>entityA = entityB p, entityB = entityA p\<rparr>)"

definition pair_set :: "BroadphaseResult \<Rightarrow> CollisionPair set" where
  "pair_set r = canonical_pair ` set (pairs r)"

definition unit_box :: "real \<Rightarrow> AABB" where
  "unit_box x0 = \<lparr>aabb_min = \<lparr>vx = x0, vy = 0, vz = 0\<rparr>,
                  aabb_max = \<lparr>vx = x0 + 1, vy = 1, vz = 1\<rparr>\<rparr>"

section \<open>Ray casts (collision/narrowphase)\<close>

text \<open>
  The ray casts produce Infinity on purpose, so here a JavaScript number is a finite
  real, one of the two infinities, or NaN. The operations follow IEEE 754 on the special
  values (Infinity times zero, Infinity minus Infinity and zero by zero are NaN; every
  comparison with NaN is false; Math.min and Math.max return NaN when an argument is NaN)
  and are exact on finite values. Zero has no sign in the model: a non-zero finite value
  divided by zero takes the sign of the dividend.
\<close>

datatype jsnum = Fin real | PInf | NInf | NaN

fun js_neg :: "jsnum \<Rightarrow> jsnum" where
  "js_neg (Fin a) = Fin (- a)"
| "js_neg PInf = NInf"
| "js_neg NInf = PInf"
| "js_neg NaN = NaN"

fun js_add :: "jsnum \<Rightarrow> jsnum \<Rightarrow> jsnum" where
  "js_add NaN _ = NaN"
| "js_add _ NaN = NaN"
| "js_add (Fin a) (Fin b) = Fin (a + b)"
| "js_add PInf NInf = NaN"
| "js_add NInf PInf = NaN"
| "js_add PInf _ = PInf"
| "js_add NInf _ = NInf"
| "js_add (Fin a) PInf = PInf"
| "js_add (Fin a) NInf = NInf"

definition js_sub :: "jsnum \<Rightarrow> jsnum \<Rightarrow> jsnum" where
  "js_sub a b = js_add a (js_neg b)"

text \<open>The sign of an infinity times a finite value; zero gives NaN.\<close>

definition inf_times :: "bool \<Rightarrow> real \<Rightarrow> jsnum" where
  "inf_times positive a =
     (if a = 0 then NaN else if (a > 0) = positive then PInf else NInf)"

fun js_mul :: "jsnum \<Rightarrow> jsnum \<Rightarrow> jsnum" where
  "js_mul NaN _ = NaN"
| "js_mul _ NaN = NaN"
| "js_mul (Fin a) (Fin b) = Fin (a * b)"
| "js_mul PInf (Fin b) = inf_times True b"
| "js_mul NInf (Fin b) = inf_times False b"
| "js_mul (Fin a) PInf = inf_times True a"
| "js_mul (Fin a) NInf = inf_times False a"
| "js_mul PInf PInf = PInf"
| "js_mul NInf NInf = PInf"
| "js_mul PInf NInf = NInf"
| "js_mul NInf PInf = NInf"

fun js_div :: "jsnum \<Rightarrow> jsnum \<Rightarrow> jsnum" where
  "js_div NaN _ = NaN"
| "js_div _ NaN = NaN"
| "js_div (Fin a) (Fin b) =
     (if b = 0 then (if a = 0 then NaN else if a > 0 then PInf else NInf) else Fin (a / b))"
| "js_div (Fin a) PInf = Fin 0"
| "js_div (Fin a) NInf = Fin 0"
| "js_div PInf (Fin b) = (if b \<ge> 0 then PInf else NInf)"
| "js_div NInf (Fin b) = (if b \<ge> 0 then NInf else PInf)"
| "js_div PInf PInf = NaN"
| "js_div PInf NInf = NaN"
| "js_div NInf PInf = NaN"
| "js_div NInf NInf = NaN"

fun js_lt :: "jsnum \<Rightarrow> jsnum \<Rightarrow> bool" where
  "js_lt NaN _ = False"
| "js_lt _ NaN = False"
| "js_lt (Fin a) (Fin b) = (a < b)"
| "js_lt NInf NInf = False"
| "js_lt NInf _ = True"
| "js_lt _ NInf = False"
| "js_lt PInf _ = False"
| "js_lt (Fin a) PInf = True"

definition js_gt :: "jsnum \<Rightarrow> jsnum \<Rightarrow> bool" where
  "js_gt a b = js_lt b a"

definition js_ge :: "jsnum \<Rightarrow> jsnum \<Rightarrow> bool" where
  "js_ge a b \<longleftrightarrow> a \<noteq> NaN \<and> b \<noteq> NaN \<and> \<not> js_lt a b"

definition js_min :: "jsnum \<Rightarrow> jsnum \<Rightarrow> jsnum" where
  "js_min a b = (if a = NaN \<or> b = NaN then NaN else if js_lt b a then b else a)"

definition js_max :: "jsnum \<Rightarrow> jsnum \<Rightarrow> jsnum" where
  "js_max a b = (if a = NaN \<or> b = NaN then NaN else if js_lt a b then b else a)"

fun js_abs :: "jsnum \<Rightarrow> jsnum" where
  "js_abs (Fin a) = Fin \<bar>a\<bar>"
| "js_abs PInf = PInf"
| "js_abs NInf = PInf"
| "js_abs NaN = NaN"

fun js_sqrt :: "jsnum \<Rightarrow> jsnum" where
  "js_sqrt (Fin a) = (if a < 0 then NaN else Fin (sqrt a))"
| "js_sqrt PInf = PInf"
| "js_sqrt NInf = NaN"
| "js_sqrt NaN = NaN"

record JVector3 =
  jx :: jsnum
  jy :: jsnum
  jz :: jsnum

record JAABB =
  jmin :: JVector3
  jmax :: JVector3

definition JVec3_add :: "JVector3 \<Rightarrow> JVector3 \<Rightarrow> JVector3" where
  "JVec3_add a b = \<lparr>jx = js_add (jx a) (jx b), jy = js_add (jy a) (jy b),
                     jz = js_add (jz a) (jz b)\<rparr>"

definition JVec3_sub :: "JVector3 \<Rightarrow> JVector3 \<Rightarrow> JVector3" where
  "JVec3_sub a b = \<lparr>jx = js_sub (jx a) (jx b), jy = js_sub (jy a) (jy b),
                     jz = js_sub (jz a) (jz b)\<rparr>"

definition JVec3_mul :: "JVector3 \<Rightarrow> jsnum \<Rightarrow> JVector3" where
  "JVec3_mul v s = \<lparr>jx = js_mul (jx v) s, jy = js_mul (jy v) s, jz = js_mul (jz v) s\<rparr>"

definition JVec3_div :: "JVector3 \<Rightarrow> jsnum \<Rightarrow> JVector3" where
  "JVec3_div v s = \<lparr>jx = js_div (jx v) s, jy = js_div (jy v) s, jz = js_div (jz v) s\<rparr>"

definition JVec3_dot :: "JVector3 \<Rightarrow> JVector3 \<Rightarrow> jsnum" where
  "JVec3_dot a b = js_add (js_add (js_mul (jx a) (jx b)) (js_mul (jy a) (jy b)))
                     (js_mul (jz a) (jz b))"

definition JVec3_length :: "JVector3 \<Rightarrow> jsnum" where
  "JVec3_length v = js_sqrt (js_add (js_add (js_mul (jx v) (jx v)) (js_mul (jy v) (jy v)))
                      (js_mul (jz v) (jz v)))"

definition JVec3_normalize :: "JVector3 \<Rightarrow> JVector3" where
  "JVec3_normalize v =
     (let len = JVec3_length v
      in if len = Fin 0 then \<lparr>jx = Fin 0, jy = Fin 0, jz = Fin 0\<rparr> else JVec3_div v len)"

record RaycastResult =
  hit :: bool
  distance :: "jsnum option"
  point :: "JVector3 option"
  ray_normal :: "JVector3 option"

definition no_hit :: RaycastResult where
  "no_hit = \<lparr>hit = False, distance = None, point = None, ray_normal = None\<rparr>"

definition raycastSphere ::
    "JVector3 \<Rightarrow> JVector3 \<Rightarrow> JVector3 \<Rightarrow> jsnum \<Rightarrow> jsnum \<Rightarrow> RaycastResult" where
  "raycastSphere origin direction center radius maxDistance =
     (let oc = JVec3_sub origin center;
          a = JVec3_dot direction direction;
          b = js_mul (Fin 2) (JVec3_dot oc direction);
          c = js_sub (JVec3_dot oc oc) (js_mul radius radius);
          discriminant = js_sub (js_mul b b) (js_mul (js_mul (Fin 4) a) c)
      in if js_lt discriminant (Fin 0) then no_hit
         else
           let sqrtD = js_sqrt discriminant;
               t0 = js_div (js_sub (js_neg b) sqrtD) (js_mul (Fin 2) a);
               t = (if js_lt t0 (Fin 0)
                    then js_div (js_add (js_neg b) sqrtD) (js_mul (Fin 2) a) else t0)
           in if js_lt t (Fin 0) \<or> js_gt t maxDistance then no_hit
              else
                let p = JVec3_add origin (JVec3_mul direction t);
                    n = JVec3_normalize (JVec3_sub p center)
                in \<lparr>hit = True, distance = Some t, point = Some p, ray_normal = Some n\<rparr>)"

definition unit_normal :: "real \<Rightarrow> real \<Rightarrow> real \<Rightarrow> JVector3" where
  "unit_normal a b c = \<lparr>jx = Fin a, jy = Fin b, jz = Fin c\<rparr>"

definition raycastAabb ::
    "JVector3 \<Rightarrow> JVector3 \<Rightarrow> JAABB \<Rightarrow> jsnum \<Rightarrow> RaycastResult" where
  "raycastAabb origin direction bounds maxDistance =
     (let invDir = \<lparr>jx = (if jx direction \<noteq> Fin 0 then js_div (Fin 1) (jx direction) else PInf),
                    jy = (if jy direction \<noteq> Fin 0 then js_div (Fin 1) (jy direction) else PInf),
                    jz = (if jz direction \<noteq> Fin 0 then js_div (Fin 1) (jz direction) else PInf)\<rparr>;
          t1 = js_mul (js_sub (jx (jmin bounds)) (jx origin)) (jx invDir);
          t2 = js_mul (js_sub (jx (jmax bounds)) (jx origin)) (jx invDir);
          t3 = js_mul (js_sub (jy (jmin bounds)) (jy origin)) (jy invDir);
          t4 = js_mul (js_sub (jy (jmax bounds)) (jy origin)) (jy invDir);
          t5 = js_mul (js_sub (jz (jmin bounds)) (jz origin)) (jz invDir);
          t6 = js_mul (js_sub (jz (jmax bounds)) (jz origin)) (jz invDir);
          tmin = js_max (js_max (js_min t1 t2) (js_min t3 t4)) (js_min t5 t6);
          tmax = js_min (js_min (js_max t1 t2) (js_max t3 t4)) (js_max t5 t6)
      in if js_lt tmax (Fin 0) \<or> js_gt tmin tmax \<or> js_gt tmin maxDistance then no_hit
         else
           let t = (if js_ge tmin (Fin 0) then tmin else tmax);
               p = JVec3_add origin (JVec3_mul direction t);
               epsilon = Fin 0.0001;
               n = (if js_lt (js_abs (js_sub (jx p) (jx (jmin bounds)))) epsilon
                      then unit_normal (-1) 0 0
                    else if js_lt (js_abs (js_sub (jx p) (jx (jmax bounds)))) epsilon
                      then unit_normal 1 0 0
                    else if js_lt (js_abs (js_sub (jy p) (jy (jmin bounds)))) epsilon
                      then unit_normal 0 (-1) 0
                    else if js_lt (js_abs (js_sub (jy p) (jy (jmax bounds)))) epsilon
                      then unit_normal 0 1 0
                    else if js_lt (js_abs (js_sub (jz p) (jz (jmin bounds)))) epsilon
                      then unit_normal 0 0 (-1)
                    else unit_normal 0 0 1)
           in \<lparr>hit = True, distance = Some t, point = Some p, ray_normal = Some n\<rparr>)"

definition jvec :: "real \<Rightarrow> real \<Rightarrow> real \<Rightarrow> JVector3" where
  "jvec a b c = \<lparr>jx = Fin a, jy = Fin b, jz = Fin c\<rparr>"

section \<open>Hash utilities (simulation/deterministic)\<close>

text \<open>
  \<open>hashNumber\<close> reads the IEEE 754 binary64 bit pattern of its argument. For a real
  number the model takes the pattern of the nearest double (round to nearest, ties to
  even; subnormal numbers and overflow to Infinity included), which is the number itself
  whenever it is a double.
\<close>

fun bit_length :: "nat \<Rightarrow> nat" where
  "bit_length n = (if n = 0 then 0 else Suc (bit_length (n div 2)))"

declare bit_length.simps [simp del]

definition round_half_even :: "real \<Rightarrow> int" where
  "round_half_even r =
     (let f = \<lfloor>r\<rfloor>; d = r - of_int f
      in if d < 1/2 then f else if d > 1/2 then f + 1 else if even f then f else f + 1)"

text \<open>The exponent e of a positive number a: 2^e \<le> a < 2^(e+1).\<close>

definition float64_exponent :: "real \<Rightarrow> int" where
  "float64_exponent a =
     (if a \<ge> 1 then int (bit_length (nat \<lfloor>a\<rfloor>)) - 1
      else - int (bit_length (nat (\<lceil>1 / a\<rceil> - 1))))"

text \<open>Exponent field and mantissa of a non-negative number, as one integer.\<close>

definition float64_magnitude :: "real \<Rightarrow> int" where
  "float64_magnitude a =
     (if a = 0 then 0
      else
        let e = max (float64_exponent a) (- 1022);
            m = round_half_even (if e \<le> 52 then a * 2 ^ nat (52 - e) else a / 2 ^ nat (e - 52));
            bits = (e + 1022) * 2 ^ 52 + m
        in if bits \<ge> 0x7FF0000000000000 then 0x7FF0000000000000 else bits)"

definition float64_bits :: "real \<Rightarrow> 64 word" where
  "float64_bits v =
     word_of_int (if v < 0 then 2 ^ 63 + float64_magnitude (- v) else float64_magnitude v)"

text \<open>
  \<open>hashNumber\<close>: the two 32-bit halves of the pattern, combined with xor. The
  result and all the hashes below are signed 32-bit integers in the source; they are
  32-bit words here, read as signed where the source reads a value.
\<close>

definition hashNumber :: "real \<Rightarrow> 32 word" where
  "hashNumber v = (let b = float64_bits v in ucast b XOR ucast (drop_bit 32 b))"

definition hashVector3 :: "Vector3 \<Rightarrow> 32 word" where
  "hashVector3 v =
     (let hx = hashNumber (vx v); hy = hashNumber (vy v); hz = hashNumber (vz v)
      in (hx * 31) XOR (hy * 17) XOR hz)"

definition combineHashes :: "32 word list \<Rightarrow> 32 word" where
  "combineHashes hashes = foldl (\<lambda>result h. push_bit 5 result - result + h) 0 hashes"

function hex_digits :: "nat \<Rightarrow> string" where
  "hex_digits n =
     (if n < 16 then [''0123456789abcdef'' ! n]
      else hex_digits (n div 16) @ [''0123456789abcdef'' ! (n mod 16)])"
  by pat_completeness auto
termination
  by (relation "measure id") auto

definition padStart :: "nat \<Rightarrow> char \<Rightarrow> string \<Rightarrow> string" where
  "padStart n c s = replicate (n - length s) c @ s"

definition recordStepHash :: "32 word \<Rightarrow> DeterministicRuntime \<Rightarrow> DeterministicRuntime" where
  "recordStepHash h rt =
     (if validateDeterminism (config rt) then rt\<lparr>stepHashes := stepHashes rt @ [h]\<rparr> else rt)"

definition computeFinalHash :: "DeterministicRuntime \<Rightarrow> string" where
  "computeFinalHash rt =
     (let h = foldl (\<lambda>hash h. push_bit 5 hash - hash + h) 0 (stepHashes rt)
      in padStart 16 CHR ''0'' (hex_digits (nat \<bar>sint h\<bar>)))"

section \<open>Simulation runtime (simulation/runtime)\<close>

datatype EntityType =
  Drone | Robot | Vehicle | Pedestrian | Obstacle | Waypoint | Zone | Sensor | Custom

record EntityProperties =
  prop_mass :: "real option"
  prop_friction :: "real option"
  prop_restitution :: "real option"
  collisionRadius :: "real option"
  maxVelocity :: "real option"
  maxAcceleration :: "real option"

text \<open>
  Metadata values are unknown to the runtime except the move target it stores; the model
  keeps them as vectors.
\<close>

record EntityDescriptor =
  desc_id :: string
  desc_type :: EntityType
  desc_transform :: Transform
  desc_properties :: EntityProperties
  desc_metadata :: "(string \<times> Vector3) list option"

record Entity =
  ent_id :: string
  ent_type :: EntityType
  ent_transform :: Transform
  ent_properties :: EntityProperties
  ent_status :: EntityStatus
  ent_velocity :: Vector3
  ent_angularVelocity :: Vector3
  ent_metadata :: "(string \<times> Vector3) list"

text \<open>
  \<open>createEntity\<close> picks the subclass by type; the subclasses add constants only
  (maxAltitude, wheelBase, ...) that the runtime never reads.
\<close>

definition createEntity :: "EntityDescriptor \<Rightarrow> Entity" where
  "createEntity d =
     \<lparr>ent_id = desc_id d, ent_type = desc_type d, ent_transform = desc_transform d,
      ent_properties = desc_properties d, ent_status = Idle,
      ent_velocity = \<lparr>vx = 0, vy = 0, vz = 0\<rparr>,
      ent_angularVelocity = \<lparr>vx = 0, vy = 0, vz = 0\<rparr>,
      ent_metadata = (case desc_metadata d of None \<Rightarrow> [] | Some m \<Rightarrow> m)\<rparr>"

datatype ActionType =
  MoveTo | SetVelocity | SetAcceleration | ApplyForce | ApplyTorque | FollowPath | Stop
  | CustomAction

record ActionParameters =
  target :: "Vector3 option"
  param_velocity :: "Vector3 option"

record Action =
  act_entityId :: string
  act_type :: ActionType
  act_parameters :: ActionParameters
  act_timestamp :: real

datatype IntegratorType = EulerT | SemiImplicitEulerT | RK4T | VerletT

text \<open>
  The integrator object of a session. Only the Verlet integrator has a field, the
  acceleration of the previous call.
\<close>

datatype Integrator =
  EulerIntegrator | SemiImplicitEulerIntegrator | VerletIntegrator Vector3 | RK4Integrator

definition createIntegrator :: "IntegratorType \<Rightarrow> Integrator" where
  "createIntegrator t =
     (case t of
        EulerT \<Rightarrow> EulerIntegrator
      | SemiImplicitEulerT \<Rightarrow> SemiImplicitEulerIntegrator
      | VerletT \<Rightarrow> VerletIntegrator Vec3_zero
      | RK4T \<Rightarrow> RK4Integrator)"

fun integrate :: "Integrator \<Rightarrow> IntegratorState \<Rightarrow> real \<Rightarrow> IntegratorResult \<times> Integrator" where
  "integrate EulerIntegrator s dt = (EulerIntegrator_integrate s dt, EulerIntegrator)"
| "integrate SemiImplicitEulerIntegrator s dt =
     (SemiImplicitEulerIntegrator_integrate s dt, SemiImplicitEulerIntegrator)"
| "integrate (VerletIntegrator prev) s dt =
     (case VerletIntegrator_integrate prev s dt of (r, prev') \<Rightarrow> (r, VerletIntegrator prev'))"
| "integrate RK4Integrator s dt = (RK4Integrator_integrate s dt, RK4Integrator)"

record WorldConfig =
  wc_gravity :: Vector3
  wc_bounds :: AABB

record RuntimeConfig =
  timestep :: real
  integrator :: "IntegratorType option"
  rc_seed :: "int option"
  strictMode :: bool
  worldConfig :: WorldConfig

record SimulationRuntime =
  rt_config :: RuntimeConfig
  rt_entities :: "(string \<times> Entity) list"
  rt_integrator :: Integrator
  deterministicRuntime :: DeterministicRuntime
  initialized :: bool
  rt_currentStep :: nat
  simulationTime :: real
  totalCollisions :: nat

definition SimulationRuntime_new :: "RuntimeConfig \<Rightarrow> SimulationRuntime" where
  "SimulationRuntime_new cfg =
     \<lparr>rt_config = cfg,
      rt_entities = [],
      rt_integrator = createIntegrator
        (case integrator cfg of None \<Rightarrow> SemiImplicitEulerT | Some t \<Rightarrow> t),
      deterministicRuntime =
        \<lparr>config = \<lparr>fixedTimestep = timestep cfg, maxSubsteps = 10, deterministicOrder = True,
                   validateDeterminism = strictMode cfg, seed = rc_seed cfg\<rparr>,
         accumulator = 0, currentStep = 0, stepHashes = []\<rparr>,
      initialized = False, rt_currentStep = 0, simulationTime = 0, totalCollisions = 0\<rparr>"

definition addEntity :: "EntityDescriptor \<Rightarrow> SimulationRuntime \<Rightarrow> SimulationRuntime" where
  "addEntity d rt =
     (let entity = createEntity d
      in rt\<lparr>rt_entities := AList.update (ent_id entity) entity (rt_entities rt)\<rparr>)"

definition addEntities :: "EntityDescriptor list \<Rightarrow> SimulationRuntime \<Rightarrow> SimulationRuntime" where
  "addEntities ds rt = foldl (\<lambda>r d. addEntity d r) rt ds"

definition Vec3_length :: "Vector3 \<Rightarrow> real" where
  "Vec3_length v = sqrt (vx v * vx v + vy v * vy v + vz v * vz v)"

definition Vec3_lengthSq :: "Vector3 \<Rightarrow> real" where
  "Vec3_lengthSq v = vx v * vx v + vy v * vy v + vz v * vz v"

definition Vec3_div :: "Vector3 \<Rightarrow> real \<Rightarrow> Vector3" where
  "Vec3_div v s = \<lparr>vx = vx v / s, vy = vy v / s, vz = vz v / s\<rparr>"

definition Vec3_normalize :: "Vector3 \<Rightarrow> Vector3" where
  "Vec3_normalize v =
     (let len = Vec3_length v in if len = 0 then Vec3_zero else Vec3_div v len)"

text \<open>The body of the loop of \<open>physicsStep\<close> for one entity, with the integrator threaded.\<close>

definition physics_entity ::
    "real \<Rightarrow> Vector3 \<Rightarrow> Entity \<Rightarrow> Integrator \<Rightarrow> Entity \<times> Integrator" where
  "physics_entity dt gravity entity integ =
     (if ent_status entity = Disabled then (entity, integ)
      else if ent_type entity = Obstacle then (entity, integ)
      else
        let acc = \<lparr>vx = vx gravity,
                   vy = (if ent_type entity = Drone then 0 else vy gravity),
                   vz = vz gravity\<rparr>;
            (result, integ') =
               integrate integ
                 \<lparr>position = tr_position (ent_transform entity),
                  velocity = ent_velocity entity, acceleration = acc\<rparr> dt;
            damping = 0.99;
            dampedVelocity = Vec3_mul (res_velocity result) damping;
            maxVel = (case maxVelocity (ent_properties entity) of None \<Rightarrow> 100 | Some m \<Rightarrow> m);
            speed = Vec3_length dampedVelocity;
            clampedVelocity =
              (if speed > maxVel then Vec3_mul (Vec3_normalize dampedVelocity) maxVel
               else dampedVelocity)
        in (entity\<lparr>ent_transform := (ent_transform entity)\<lparr>tr_position := res_position result\<rparr>,
                   ent_velocity := clampedVelocity,
                   ent_status := (if Vec3_lengthSq clampedVelocity > 0.01 then Moving else Idle)\<rparr>,
            integ'))"

fun physics_entities ::
    "real \<Rightarrow> Vector3 \<Rightarrow> (string \<times> Entity) list \<Rightarrow> Integrator
      \<Rightarrow> (string \<times> Entity) list \<times> Integrator" where
  "physics_entities dt gravity [] integ = ([], integ)"
| "physics_entities dt gravity ((k, e) # rest) integ =
     (case physics_entity dt gravity e integ of
        (e', integ') \<Rightarrow>
          (case physics_entities dt gravity rest integ' of
             (rest', integ'') \<Rightarrow> ((k, e') # rest', integ'')))"

definition physicsStep :: "real \<Rightarrow> SimulationRuntime \<Rightarrow> SimulationRuntime" where
  "physicsStep dt rt =
     (case physics_entities dt (wc_gravity (worldConfig (rt_config rt))) (rt_entities rt)
             (rt_integrator rt) of
        (ents, integ) \<Rightarrow> rt\<lparr>rt_entities := ents, rt_integrator := integ\<rparr>)"

definition handleMoveTo :: "Entity \<Rightarrow> Vector3 option \<Rightarrow> Entity" where
  "handleMoveTo entity tgt =
     (case tgt of
        None \<Rightarrow> entity
      | Some t \<Rightarrow>
          let direction = Vec3_normalize (Vec3_sub t (tr_position (ent_transform entity)));
              speed = (case maxVelocity (ent_properties entity) of None \<Rightarrow> 10 | Some m \<Rightarrow> m);
              v = Vec3_mul direction speed
          in entity\<lparr>ent_velocity := v, ent_status := Moving,
                    ent_metadata := AList.update ''target'' t (ent_metadata entity)\<rparr>)"

definition processAction :: "Action \<Rightarrow> SimulationRuntime \<Rightarrow> SimulationRuntime" where
  "processAction action rt =
     (case map_of (rt_entities rt) (act_entityId action) of
        None \<Rightarrow> rt
      | Some entity \<Rightarrow>
          (case act_type action of
             MoveTo \<Rightarrow>
               rt\<lparr>rt_entities := AList.update (act_entityId action)
                     (handleMoveTo entity (target (act_parameters action))) (rt_entities rt)\<rparr>
           | SetVelocity \<Rightarrow>
               (case param_velocity (act_parameters action) of
                  None \<Rightarrow> rt
                | Some v \<Rightarrow>
                    rt\<lparr>rt_entities := AList.update (act_entityId action)
                          (entity\<lparr>ent_velocity := v, ent_status := Moving\<rparr>) (rt_entities rt)\<rparr>)
           | Stop \<Rightarrow>
               rt\<lparr>rt_entities := AList.update (act_entityId action)
                     (entity\<lparr>ent_velocity := Vec3_zero, ent_status := Idle\<rparr>) (rt_entities rt)\<rparr>
           | FollowPath \<Rightarrow> rt
           | _ \<Rightarrow> rt))"

definition processActions :: "Action list \<Rightarrow> SimulationRuntime \<Rightarrow> SimulationRuntime" where
  "processActions actions rt = foldl (\<lambda>r a. processAction a r) rt actions"

text \<open>
  \<open>validateStability\<close> throws a DivergenceError. Over the reals no value is NaN or
  infinite, so of the three reasons only the exceeded limit remains; the error carries
  the step number.
\<close>

datatype DivergenceError = DivergenceError string nat

definition highest :: "real list \<Rightarrow> real" where
  "highest vs = foldl (\<lambda>h v. if v > h then v else h) 0 vs"

definition validateStability :: "SimulationRuntime \<Rightarrow> DivergenceError option" where
  "validateStability rt =
     (let states = filter (\<lambda>e. ent_status e \<noteq> Disabled) (map snd (rt_entities rt));
          highestVel = highest (map (\<lambda>e. Vec3_length (ent_velocity e)) states);
          highestAcc = highest (map (\<lambda>e. Vec3_length \<lparr>vx = 0, vy = 0, vz = 0\<rparr>) states);
          stable = (highestVel \<le> 1000 \<and> highestAcc \<le> 10000)
      in if \<not> stable
         then Some (DivergenceError ''Velocity/acceleration exceeded limits'' (rt_currentStep rt))
         else None)"

text \<open>
  \<open>computeStepHash\<close> sorts the Map's entries by id. \<open>localeCompare\<close> is taken to be
  the linear order on ids; the sort is stable.
\<close>

definition computeStepHash :: "SimulationRuntime \<Rightarrow> 32 word" where
  "computeStepHash rt =
     (let sortedEntities = sort_key fst (rt_entities rt)
      in combineHashes
           (word_of_nat (rt_currentStep rt)
            # concat (map (\<lambda>(k, entity). [hashVector3 (tr_position (ent_transform entity)),
                                            hashVector3 (ent_velocity entity)])
                          sortedEntities)))"

text \<open>
  \<open>step\<close>: the snapshot it returns is not modelled (it carries the wall-clock time);
  the result is the runtime after the tick, or the error thrown.
\<close>

definition step :: "Action list \<Rightarrow> SimulationRuntime \<Rightarrow> DivergenceError + SimulationRuntime" where
  "step actions rt0 =
     (let rt1 = rt0\<lparr>initialized := True\<rparr>;
          rt2 = processActions actions rt1;
          rt3 = physicsStep (timestep (rt_config rt2)) rt2
      in case (if strictMode (rt_config rt3) then validateStability rt3 else None) of
           Some err \<Rightarrow> Inl err
         | None \<Rightarrow>
             let rt4 = rt3\<lparr>rt_currentStep := rt_currentStep rt3 + 1,
                           simulationTime := simulationTime rt3 + timestep (rt_config rt3)\<rparr>;
                 stepHash = computeStepHash rt4
             in Inr (rt4\<lparr>deterministicRuntime :=
                           recordStepHash stepHash (deterministicRuntime rt4)\<rparr>))"

fun run :: "Action list list \<Rightarrow> SimulationRuntime \<Rightarrow> DivergenceError + SimulationRuntime" where
  "run [] rt = Inr rt"
| "run (actions # rest) rt =
     (case step actions rt of Inl err \<Rightarrow> Inl err | Inr rt' \<Rightarrow> run rest rt')"

definition getDeterministicHash :: "SimulationRuntime \<Rightarrow> string" where
  "getDeterministicHash rt = computeFinalHash (deterministicRuntime rt)"

definition getStepHashes :: "SimulationRuntime \<Rightarrow> 32 word list" where
  "getStepHashes rt = stepHashes (deterministicRuntime rt)"

text \<open>A session: the runtime constructed from a configuration, then the entities added.\<close>

definition session :: "RuntimeConfig \<Rightarrow> EntityDescriptor list \<Rightarrow> SimulationRuntime" where
  "session cfg ds = addEntities ds (SimulationRuntime_new cfg)"

definition example_descriptor :: "string \<Rightarrow> EntityType \<Rightarrow> Vector3 \<Rightarrow> EntityDescriptor" where
  "example_descriptor i t p =
     \<lparr>desc_id = i, desc_type = t,
      desc_transform = \<lparr>tr_position = p,
                        tr_rotation = \<lparr>qx = 0, qy = 0, qz = 0, qw = 1\<rparr>,
                        tr_scale = \<lparr>vx = 1, vy = 1, vz = 1\<rparr>\<rparr>,
      desc_properties = \<lparr>prop_mass = Some 1, prop_friction = Some 0.5,
                         prop_restitution = Some 0.3, collisionRadius = Some 1,
                         maxVelocity = Some 20, maxAcceleration = Some 50\<rparr>,
      desc_metadata = None\<rparr>"

definition example_config :: "IntegratorType \<Rightarrow> RuntimeConfig" where
  "example_config t =
     \<lparr>timestep = 0.5, integrator = Some t, rc_seed = Some 42, strictMode = True,
      worldConfig = \<lparr>wc_gravity = \<lparr>vx = 0, vy = -8, vz = 0\<rparr>,
                     wc_bounds = default_bounds\<rparr>\<rparr>"

definition drone_d1 :: EntityDescriptor where
  "drone_d1 = example_descriptor ''d1'' Drone \<lparr>vx = 0, vy = 8, vz = 0\<rparr>"

definition robot_r1 :: EntityDescriptor where
  "robot_r1 = example_descriptor ''r1'' Robot \<lparr>vx = 4, vy = 0, vz = 0\<rparr>"

text \<open>The recorded per-step hashes and the final hash string after a run, if it ends.\<close>

definition hashes_after ::
    "Action list list \<Rightarrow> SimulationRuntime \<Rightarrow> (32 word list \<times> string) option" where
  "hashes_after actionss rt =
     (case run actionss rt of
        Inl err \<Rightarrow> None
      | Inr rt' \<Rightarrow> Some (getStepHashes rt', getDeterministicHash rt'))"

subsection \<open>Notions used to compare the backends\<close>

text \<open>
  A box is valid when its minimum is below its maximum on every axis. The reference
  result is the set of all pairs of different ids whose boxes intersect, each pair with
  the smaller id first. The remaining definitions name the steps of the iteration (the pairs
  of a list in visiting order, one visit of the spatial-hash loop) and the invariants of
  the spatial-hash state.
\<close>

definition valid_aabb :: "AABB \<Rightarrow> bool" where
  "valid_aabb b \<longleftrightarrow> vx (aabb_min b) \<le> vx (aabb_max b) \<and> vy (aabb_min b) \<le> vy (aabb_max b)
     \<and> vz (aabb_min b) \<le> vz (aabb_max b)"

definition ordered_pair :: "string \<Rightarrow> string \<Rightarrow> CollisionPair" where
  "ordered_pair i j = \<lparr>entityA = (if i < j then i else j), entityB = (if i < j then j else i)\<rparr>"

definition all_pairs :: "('a \<Rightarrow> string) \<Rightarrow> ('a \<Rightarrow> AABB) \<Rightarrow> 'a set \<Rightarrow> CollisionPair set" where
  "all_pairs idf bf X =
     {ordered_pair (idf a) (idf b) | a b. a \<in> X \<and> b \<in> X \<and> idf a \<noteq> idf b
        \<and> AABBOps_intersects (bf a) (bf b)}"

definition colliding_pairs :: "(string \<times> AABB) list \<Rightarrow> CollisionPair set" where
  "colliding_pairs ins = all_pairs fst snd (set ins)"

fun list_pairs :: "'a list \<Rightarrow> ('a \<times> 'a) set" where
  "list_pairs [] = {}"
| "list_pairs (a # rest) = (\<lambda>b. (a, b)) ` set rest \<union> list_pairs rest"

definition pairs_of ::
    "('a \<Rightarrow> string) \<Rightarrow> ('a \<Rightarrow> AABB) \<Rightarrow> ('a \<times> 'a) set \<Rightarrow> CollisionPair set" where
  "pairs_of idf bf R =
     (\<lambda>ab. ordered_pair (idf (fst ab)) (idf (snd ab)))
       ` {ab \<in> R. AABBOps_intersects (bf (fst ab)) (bf (snd ab))}"

definition mk_entry :: "string \<times> AABB \<Rightarrow> SAPEntry" where
  "mk_entry ib = \<lparr>sap_id = fst ib, sap_bounds = snd ib,
                  minX = vx (aabb_min (snd ib)), maxX = vx (aabb_max (snd ib))\<rparr>"

definition entry_ok :: "SAPEntry \<Rightarrow> bool" where
  "entry_ok e \<longleftrightarrow> minX e = vx (aabb_min (sap_bounds e)) \<and> maxX e = vx (aabb_max (sap_bounds e))"

definition visit ::
    "(string \<times> AABB) list \<Rightarrow> (string \<times> CollisionPair) list \<Rightarrow> string \<times> string
      \<Rightarrow> (string \<times> CollisionPair) list" where
  "visit eb ps ab =
     (if map_of ps (pair_key (fst ab) (snd ab)) \<noteq> None then ps
      else case (map_of eb (fst ab), map_of eb (snd ab)) of
             (Some boundsA, Some boundsB) \<Rightarrow>
               if AABBOps_intersects boundsA boundsB
               then AList.update (pair_key (fst ab) (snd ab)) (ordered_pair (fst ab) (snd ab)) ps
               else ps
           | _ \<Rightarrow> ps)"

fun pairs_list :: "'a list \<Rightarrow> ('a \<times> 'a) list" where
  "pairs_list [] = []"
| "pairs_list (a # rest) = map (Pair a) rest @ pairs_list rest"

definition colon_free :: "string \<Rightarrow> bool" where
  "colon_free i \<longleftrightarrow> CHR '':'' \<notin> set i"

definition sound :: "(string \<times> AABB) list \<Rightarrow> (string \<times> CollisionPair) list \<Rightarrow> bool" where
  "sound eb ps \<longleftrightarrow>
     (\<forall>kp \<in> set ps. snd kp \<in> all_pairs fst snd (set eb)
        \<and> fst kp = pair_key (entityA (snd kp)) (entityB (snd kp)))"

definition cell_members :: "(cell \<times> string list) list \<Rightarrow> cell \<Rightarrow> string set" where
  "cell_members m c = (case map_of m c of None \<Rightarrow> {} | Some ids \<Rightarrow> set ids)"

definition cells_ok :: "(cell \<times> string list) list \<Rightarrow> bool" where
  "cells_ok m \<longleftrightarrow> distinct (map fst m) \<and> (\<forall>cid \<in> set m. distinct (snd cid))"

text \<open>
  Two registries hold the same entities when they are Maps with the same content, in
  whatever order. Two runtimes are similar when they differ at most in the order of the
  registry and their integrator has no field.
\<close>

definition same_registry :: "(string \<times> Entity) list \<Rightarrow> (string \<times> Entity) list \<Rightarrow> bool" where
  "same_registry xs ys \<longleftrightarrow>
     distinct (map fst xs) \<and> distinct (map fst ys) \<and> map_of xs = map_of ys"

definition stateless :: "Integrator \<Rightarrow> bool" where
  "stateless integ \<longleftrightarrow> (case integ of VerletIntegrator p \<Rightarrow> False | _ \<Rightarrow> True)"

definition similar :: "SimulationRuntime \<Rightarrow> SimulationRuntime \<Rightarrow> bool" where
  "similar a b \<longleftrightarrow>
     same_registry (rt_entities a) (rt_entities b) \<and> stateless (rt_integrator a)
     \<and> b = a\<lparr>rt_entities := rt_entities b\<rparr>"

section \<open>Results\<close>

subsection \<open>Integrators\<close>


subsection \<open>Contact resolution\<close>

text \<open>
  C5. If both bodies are static, or the relative velocity along the contact normal is
  separating (dot (vB - vA) normal > 0), resolveContact returns impulse 0 and both
  returned velocities are the input velocities.
\<close>

theorem resolveContact_no_impulse:
  assumes "(isStatic a \<and> isStatic b)
           \<or> Vec3_dot (Vec3_sub (body_velocity b) (body_velocity a)) (normal c) > 0"
  shows "impulse (resolveContact a b c) = 0
         \<and> out_velocity (bodyA (resolveContact a b c)) = body_velocity a
         \<and> out_velocity (bodyB (resolveContact a b c)) = body_velocity b"
  using assms by (auto simp: resolveContact_def Let_def)

theorem resolveContact_no_impulse_witness:
  "((isStatic example_bodyA \<and> isStatic example_bodyB)
      \<or> Vec3_dot (Vec3_sub (body_velocity example_bodyB) (body_velocity example_bodyA))
           (normal example_contact) > 0)
   \<and> impulse (resolveContact example_bodyA example_bodyB example_contact) = 0
   \<and> out_velocity (bodyA (resolveContact example_bodyA example_bodyB example_contact))
       = \<lparr>vx = -1, vy = 0, vz = 0\<rparr>
   \<and> out_velocity (bodyB (resolveContact example_bodyA example_bodyB example_contact))
       = \<lparr>vx = 1, vy = 0, vz = 0\<rparr>"
proof -
  have sep: "Vec3_dot (Vec3_sub (body_velocity example_bodyB) (body_velocity example_bodyA))
               (normal example_contact) > 0"
    by (simp add: example_bodyA_def example_bodyB_def example_contact_def Vec3_dot_def
        Vec3_sub_def)
  from resolveContact_no_impulse[of example_bodyA example_bodyB example_contact] sep
  show ?thesis by (simp add: example_bodyA_def example_bodyB_def)
qed

subsection \<open>Snapshot serialization\<close>

lemma set_update_subset:
  "set (AList.update k v al) \<subseteq> insert (k, v) (set al)"
  by (induction al) auto

lemma StateBuilder_addEntity_keyed:
  assumes "entities_keyed_by_id ents"
  shows "entities_keyed_by_id (StateBuilder_addEntity state ents)"
  using assms set_update_subset[of "es_id state" state ents]
  by (auto simp: entities_keyed_by_id_def StateBuilder_addEntity_def list_all_iff
      distinct_update)

lemma StateBuilder_removeEntity_keyed:
  assumes "entities_keyed_by_id ents"
  shows "entities_keyed_by_id (StateBuilder_removeEntity k ents)"
proof -
  have "set (AList.delete k ents) \<subseteq> set ents"
    by (auto simp: AList.delete_eq)
  then show ?thesis
    using assms distinct_delete[of ents k]
    by (auto simp: entities_keyed_by_id_def StateBuilder_removeEntity_def list_all_iff)
qed

lemma deserializeEntity_serializeEntity:
  "deserializeEntity (serializeEntity e) =
     e\<lparr>es_transform := (es_transform e)\<lparr>tr_scale := \<lparr>vx = 1, vy = 1, vz = 1\<rparr>\<rparr>,
       es_angularVelocity := \<lparr>vx = 0, vy = 0, vz = 0\<rparr>,
       es_acceleration := \<lparr>vx = 0, vy = 0, vz = 0\<rparr>,
       es_customState := None\<rparr>"
  by (simp add: deserializeEntity_def serializeEntity_def)

lemma foldl_update_fresh:
  "distinct (map fst acc @ map se_id es) \<Longrightarrow>
   foldl (\<lambda>m e. AList.update (se_id e) (f e) m) acc es = acc @ map (\<lambda>e. (se_id e, f e)) es"
proof (induction es arbitrary: acc)
  case Nil
  then show ?case by simp
next
  case (Cons e es)
  have "se_id e \<notin> fst ` set acc" using Cons.prems by auto
  then have u: "AList.update (se_id e) (f e) acc = acc @ [(se_id e, f e)]"
    by (induction acc) auto
  have "distinct (map fst (acc @ [(se_id e, f e)]) @ map se_id es)"
    using Cons.prems by auto
  from Cons.IH[OF this] show ?case by (simp add: u)
qed

lemma roundtrip_entities:
  assumes "snapshot_keyed_by_id s"
  shows "ss_entities (deserializeState (serializeState s)) =
         map (\<lambda>(k, e). (k, deserializeEntity (serializeEntity e))) (ss_entities s)"
proof -
  have ids: "map se_id (map (\<lambda>(k, e). serializeEntity e) (ss_entities s))
             = map fst (ss_entities s)"
    using assms
    by (auto simp: snapshot_keyed_by_id_def entities_keyed_by_id_def list_all_iff
        serializeEntity_def)
  have d: "distinct (map fst [] @ map se_id (map (\<lambda>(k, e). serializeEntity e) (ss_entities s)))"
    using assms unfolding ids by (simp add: snapshot_keyed_by_id_def entities_keyed_by_id_def)
  have "map (\<lambda>e. (se_id e, deserializeEntity e))
          (map (\<lambda>(k, e). serializeEntity e) (ss_entities s))
       = map (\<lambda>(k, e). (k, deserializeEntity (serializeEntity e))) (ss_entities s)"
    using assms
    by (auto simp: snapshot_keyed_by_id_def entities_keyed_by_id_def list_all_iff
        serializeEntity_def)
  with foldl_update_fresh[OF d, of deserializeEntity] show ?thesis
    by (simp add: deserializeState_def serializeState_def Let_def)
qed

lemma map_of_map_values:
  "map_of (map (\<lambda>(k, e). (k, f e)) xs) k = map_option f (map_of xs k)"
  by (induction xs) auto

text \<open>
  C9. For every snapshot s (each entity stored under its own id, as StateBuilder builds
  it), deserializeState (serializeState s) has the same hash string as s, has the same
  entity ids in the same order, gives every entity of s the same position, velocity and
  status, and has the fixed default world bounds (min (-1000, -100, -1000),
  max (1000, 1000, 1000)) whatever the bounds of s were.
\<close>

theorem serialize_roundtrip:
  assumes "snapshot_keyed_by_id s"
  shows "ss_hash (deserializeState (serializeState s)) = ss_hash s
    \<and> ws_bounds (ss_worldState (deserializeState (serializeState s)))
        = \<lparr>aabb_min = \<lparr>vx = -1000, vy = -100, vz = -1000\<rparr>,
           aabb_max = \<lparr>vx = 1000, vy = 1000, vz = 1000\<rparr>\<rparr>
    \<and> map fst (ss_entities (deserializeState (serializeState s))) = map fst (ss_entities s)
    \<and> (\<forall>k e. map_of (ss_entities s) k = Some e \<longrightarrow>
         (\<exists>e'. map_of (ss_entities (deserializeState (serializeState s))) k = Some e'
            \<and> tr_position (es_transform e') = tr_position (es_transform e)
            \<and> es_velocity e' = es_velocity e
            \<and> es_status e' = es_status e))"
proof -
  have h: "ss_hash (deserializeState (serializeState s)) = ss_hash s"
    by (simp add: deserializeState_def serializeState_def Let_def)
  have b: "ws_bounds (ss_worldState (deserializeState (serializeState s))) = default_bounds"
    by (simp add: deserializeState_def serializeState_def Let_def split: prod.splits)
  note rt = roundtrip_entities[OF assms]
  have k: "map fst (ss_entities (deserializeState (serializeState s))) = map fst (ss_entities s)"
    unfolding rt by (induction "ss_entities s") (auto simp: case_prod_beta)
  show ?thesis
    using h b k
    by (auto simp: rt map_of_map_values deserializeEntity_serializeEntity default_bounds_def)
qed

theorem serialize_roundtrip_witness:
  "snapshot_keyed_by_id example_snapshot
   \<and> ss_hash (deserializeState (serializeState example_snapshot)) = ''000000004a7f3c21''
   \<and> ws_bounds (ss_worldState example_snapshot)
        \<noteq> ws_bounds (ss_worldState (deserializeState (serializeState example_snapshot)))
   \<and> map fst (ss_entities (deserializeState (serializeState example_snapshot)))
        = [''drone_1'', ''robot_1'']
   \<and> (\<exists>e'. map_of (ss_entities (deserializeState (serializeState example_snapshot)))
              ''drone_1'' = Some e'
         \<and> tr_position (es_transform e') = \<lparr>vx = 0, vy = 50, vz = 3\<rparr>
         \<and> es_velocity e' = \<lparr>vx = 1, vy = 0, vz = -1\<rparr>
         \<and> es_status e' = Moving)"
proof -
  have k: "snapshot_keyed_by_id example_snapshot"
    by (simp add: snapshot_keyed_by_id_def entities_keyed_by_id_def example_snapshot_def
        example_entity_def)
  have m: "map_of (ss_entities example_snapshot) ''drone_1''
           = Some (example_entity ''drone_1'' 50 Moving)"
    by (simp add: example_snapshot_def)
  note rt = serialize_roundtrip[OF k]
  from rt m obtain e' where e':
    "map_of (ss_entities (deserializeState (serializeState example_snapshot))) ''drone_1''
       = Some e'"
    "tr_position (es_transform e')
       = tr_position (es_transform (example_entity ''drone_1'' 50 Moving))"
    "es_velocity e' = es_velocity (example_entity ''drone_1'' 50 Moving)"
    "es_status e' = es_status (example_entity ''drone_1'' 50 Moving)"
    by blast
  have h: "ss_hash (deserializeState (serializeState example_snapshot)) = ''000000004a7f3c21''"
    using rt by (simp add: example_snapshot_def)
  have b: "ws_bounds (ss_worldState example_snapshot)
        \<noteq> ws_bounds (ss_worldState (deserializeState (serializeState example_snapshot)))"
    using rt by (simp add: example_snapshot_def)
  have f: "map fst (ss_entities (deserializeState (serializeState example_snapshot)))
        = [''drone_1'', ''robot_1'']"
    using rt by (simp add: example_snapshot_def)
  from e' have "\<exists>e'. map_of (ss_entities (deserializeState (serializeState example_snapshot)))
              ''drone_1'' = Some e'
         \<and> tr_position (es_transform e') = \<lparr>vx = 0, vy = 50, vz = 3\<rparr>
         \<and> es_velocity e' = \<lparr>vx = 1, vy = 0, vz = -1\<rparr>
         \<and> es_status e' = Moving"
    by (simp add: example_entity_def)
  with k h b f show ?thesis by blast
qed

subsection \<open>Seeded random numbers\<close>

text \<open>
  C7. For every generator and every subsystem name, fork leaves the parent as it was:
  the parent after the call equals the parent before it, so the parent's next n outputs
  are the same with and without the fork, for every n.
\<close>

theorem fork_leaves_parent:
  "snd (SeededRandom_fork sub r) = r
   \<and> next_outputs n (snd (SeededRandom_fork sub r)) = next_outputs n r"
  by (simp add: SeededRandom_fork_def Let_def)

subsection \<open>Fixed-step clock\<close>

lemma advance_loop_total:
  assumes "0 < ts"
  shows "acc < (real n + 1) * ts \<Longrightarrow>
    \<exists>k calls'. k \<le> n \<and> acc - real k * ts < ts \<and> (0 \<le> acc \<longrightarrow> 0 \<le> acc - real k * ts) \<and>
      length calls' = length calls + k \<and>
      advance_loop ts log_call acc cur st calls =
        Some (acc - real k * ts, cur + k, st + k, calls')"
proof (induction n arbitrary: acc cur st calls)
  case 0
  then have "\<not> acc \<ge> ts" by simp
  then show ?case
    by (subst advance_loop.simps) (use 0 in auto)
next
  case (Suc n)
  show ?case
  proof (cases "acc \<ge> ts")
    case False
    then show ?thesis
      by (subst advance_loop.simps) (auto intro!: exI[of _ 0])
  next
    case True
    have "acc - ts < (real n + 1) * ts" using Suc.prems by (simp add: algebra_simps)
    from Suc.IH[OF this, of "log_call ts cur calls" "cur + 1" "st + 1"]
    obtain k calls' where k: "k \<le> n" "acc - ts - real k * ts < ts"
      "0 \<le> acc - ts \<longrightarrow> 0 \<le> acc - ts - real k * ts"
      "length calls' = length (log_call ts cur calls) + k"
      "advance_loop ts log_call (acc - ts) (cur + 1) (st + 1) (log_call ts cur calls) =
        Some (acc - ts - real k * ts, cur + 1 + k, st + 1 + k, calls')"
      by blast
    show ?thesis
      apply (subst advance_loop.simps)
      apply (rule exI[of _ "Suc k"])
      apply (rule exI[of _ calls'])
      using True k assms by (simp add: log_call_def algebra_simps)
  qed
qed

text \<open>
  C3. With a positive fixed timestep and a non-negative maxSubsteps, a single call of
  advance returns, whatever deltaTime and whatever the accumulator held; the step
  callback has been invoked exactly as often as the returned step count says, and that
  count is at most maxSubsteps.
\<close>

theorem advance_substep_clamp:
  assumes ts: "0 < fixedTimestep (config rt)" and ms: "0 \<le> maxSubsteps (config rt)"
  shows "\<exists>n rt' calls. advance deltaTime log_call (rt, []) = Some (n, rt', calls)
           \<and> length calls = n \<and> real n \<le> maxSubsteps (config rt)"
proof -
  define ts where "ts = fixedTimestep (config rt)"
  define ms where "ms = maxSubsteps (config rt)"
  define acc0 where "acc0 = accumulator rt + deltaTime"
  define acc1 where "acc1 = (if acc0 > ts * ms then ts * ms else acc0)"
  have le: "acc1 \<le> ts * ms" by (simp add: acc1_def)
  have "ms < real (nat \<lfloor>ms\<rfloor>) + 1" using ms unfolding ms_def[symmetric] by linarith
  then have "ts * ms < (real (nat \<lfloor>ms\<rfloor>) + 1) * ts" using ts unfolding ts_def[symmetric]
    by (simp add: mult.commute)
  with le have "acc1 < (real (nat \<lfloor>ms\<rfloor>) + 1) * ts" by linarith
  from advance_loop_total[OF ts[folded ts_def] this, of "[]" "currentStep rt" 0]
  obtain k calls' where k: "k \<le> nat \<lfloor>ms\<rfloor>" "length calls' = k"
    "advance_loop ts log_call acc1 (currentStep rt) 0 [] =
        Some (acc1 - real k * ts, currentStep rt + k, k, calls')"
    by auto
  have "real k \<le> ms" using k(1) ms unfolding ms_def[symmetric] by linarith
  moreover have "advance deltaTime log_call (rt, []) =
      (case advance_loop ts log_call acc1 (currentStep rt) 0 [] of
         None \<Rightarrow> None
       | Some (acc, cur, stepsTaken, s') \<Rightarrow>
           Some (stepsTaken, rt\<lparr>accumulator := acc, currentStep := cur\<rparr>, s'))"
    by (simp add: advance_def Let_def ts_def ms_def acc0_def acc1_def)
  ultimately show ?thesis using k by (simp add: ms_def)
qed

theorem advance_substep_clamp_witness:
  "0 < fixedTimestep (config (DeterministicRuntime_new 0.016 10))
   \<and> 0 \<le> maxSubsteps (config (DeterministicRuntime_new 0.016 10))
   \<and> (\<exists>n rt' calls. advance 10 log_call (DeterministicRuntime_new 0.016 10, [])
          = Some (n, rt', calls)
        \<and> length calls = n \<and> real n \<le> maxSubsteps (config (DeterministicRuntime_new 0.016 10)))"
  using advance_substep_clamp[of "DeterministicRuntime_new 0.016 10" 10]
  by (simp add: DeterministicRuntime_new_def)








subsection \<open>Broadphase backends\<close>

lemmas broadphase_defs =
  SimpleBroadphase_queryPairs_def simple_of_def SimpleBroadphase_insert_def unit_box_def
  AABBOps_intersects_def SpatialHashBroadphase_queryPairs_def spatial_hash_of_def
  SpatialHashBroadphase_insert_def SpatialHashBroadphase_new_def getCellsForBounds_def
  add_to_cell_def set_add_def pair_key_def SweepAndPruneBroadphase_queryPairs_def
  sweep_and_prune_of_def SweepAndPruneBroadphase_insert_def SweepAndPruneBroadphase_new_def

text \<open>
  C6 fails for the brute-force backend: it emits each pair in the insertion order of the
  Map. With ''b'' inserted before ''a'' and overlapping boxes, SimpleBroadphase emits the
  pair (entityA = ''b'', entityB = ''a''), while the spatial-hash and the sweep-and-prune
  backends emit (entityA = ''a'', entityB = ''b'') on the same insertions.
\<close>

theorem simple_pair_not_canonical:
  "pairs (SimpleBroadphase_queryPairs (simple_of [(''b'', unit_box 0), (''a'', unit_box 0.5)]))
     = [\<lparr>entityA = ''b'', entityB = ''a''\<rparr>]
   \<and> \<not> (''b'' < ''a'')
   \<and> pairs (SpatialHashBroadphase_queryPairs
        (spatial_hash_of 10 [(''b'', unit_box 0), (''a'', unit_box 0.5)]))
     = [\<lparr>entityA = ''a'', entityB = ''b''\<rparr>]
   \<and> pairs (fst (SweepAndPruneBroadphase_queryPairs
        (sweep_and_prune_of [(''b'', unit_box 0), (''a'', unit_box 0.5)])))
     = [\<lparr>entityA = ''a'', entityB = ''b''\<rparr>]"
  by (simp add: broadphase_defs Let_def)

text \<open>
  C2 fails where the string key of the spatial-hash backend's result Map is the same for
  two different pairs. With the ids ''a'', ''a:b'', ''b:c'', ''c'' on one and the same box,
  the pairs (''a'', ''b:c'') and (''a:b'', ''c'') both have the key ''a:b:c'': the brute-force
  and the sweep-and-prune backends return all six pairs, the spatial-hash backend returns
  five and misses (''a:b'', ''c'').
\<close>

lemma spatial_hash_key_collision_simple:
  "SimpleBroadphase_queryPairs
     (simple_of [(''a'', unit_box 0), (''a:b'', unit_box 0), (''b:c'', unit_box 0),
                 (''c'', unit_box 0)])
   = \<lparr>pairs = [\<lparr>entityA = ''a'', entityB = ''a:b''\<rparr>, \<lparr>entityA = ''a'', entityB = ''b:c''\<rparr>,
               \<lparr>entityA = ''a'', entityB = ''c''\<rparr>, \<lparr>entityA = ''a:b'', entityB = ''b:c''\<rparr>,
               \<lparr>entityA = ''a:b'', entityB = ''c''\<rparr>, \<lparr>entityA = ''b:c'', entityB = ''c''\<rparr>],
      checksPerformed = 6\<rparr>"
  by (simp add: broadphase_defs Let_def)

lemma spatial_hash_key_collision_sap:
  "fst (SweepAndPruneBroadphase_queryPairs
     (sweep_and_prune_of [(''a'', unit_box 0), (''a:b'', unit_box 0), (''b:c'', unit_box 0),
                          (''c'', unit_box 0)]))
   = \<lparr>pairs = [\<lparr>entityA = ''a'', entityB = ''a:b''\<rparr>, \<lparr>entityA = ''a'', entityB = ''b:c''\<rparr>,
               \<lparr>entityA = ''a'', entityB = ''c''\<rparr>, \<lparr>entityA = ''a:b'', entityB = ''b:c''\<rparr>,
               \<lparr>entityA = ''a:b'', entityB = ''c''\<rparr>, \<lparr>entityA = ''b:c'', entityB = ''c''\<rparr>],
      checksPerformed = 6\<rparr>"
  by (simp add: broadphase_defs Let_def)

lemma spatial_hash_key_collision_hash:
  "SpatialHashBroadphase_queryPairs
     (spatial_hash_of 10 [(''a'', unit_box 0), (''a:b'', unit_box 0), (''b:c'', unit_box 0),
                          (''c'', unit_box 0)])
   = \<lparr>pairs = [\<lparr>entityA = ''a'', entityB = ''a:b''\<rparr>, \<lparr>entityA = ''a'', entityB = ''b:c''\<rparr>,
               \<lparr>entityA = ''a'', entityB = ''c''\<rparr>, \<lparr>entityA = ''a:b'', entityB = ''b:c''\<rparr>,
               \<lparr>entityA = ''b:c'', entityB = ''c''\<rparr>],
      checksPerformed = 5\<rparr>"
  by (simp add: broadphase_defs Let_def)

theorem spatial_hash_key_collision:
  "\<lparr>entityA = ''a:b'', entityB = ''c''\<rparr>
     \<in> pair_set (SimpleBroadphase_queryPairs
          (simple_of [(''a'', unit_box 0), (''a:b'', unit_box 0), (''b:c'', unit_box 0),
                      (''c'', unit_box 0)]))
   \<and> \<lparr>entityA = ''a:b'', entityB = ''c''\<rparr>
     \<in> pair_set (fst (SweepAndPruneBroadphase_queryPairs
          (sweep_and_prune_of [(''a'', unit_box 0), (''a:b'', unit_box 0), (''b:c'', unit_box 0),
                               (''c'', unit_box 0)])))
   \<and> \<lparr>entityA = ''a:b'', entityB = ''c''\<rparr>
     \<notin> pair_set (SpatialHashBroadphase_queryPairs
          (spatial_hash_of 10 [(''a'', unit_box 0), (''a:b'', unit_box 0), (''b:c'', unit_box 0),
                               (''c'', unit_box 0)]))
   \<and> pair_set (SimpleBroadphase_queryPairs
          (simple_of [(''a'', unit_box 0), (''a:b'', unit_box 0), (''b:c'', unit_box 0),
                      (''c'', unit_box 0)]))
     \<noteq> pair_set (SpatialHashBroadphase_queryPairs
          (spatial_hash_of 10 [(''a'', unit_box 0), (''a:b'', unit_box 0), (''b:c'', unit_box 0),
                               (''c'', unit_box 0)]))"
proof -
  have a: "\<lparr>entityA = ''a:b'', entityB = ''c''\<rparr>
     \<in> pair_set (SimpleBroadphase_queryPairs
          (simple_of [(''a'', unit_box 0), (''a:b'', unit_box 0), (''b:c'', unit_box 0),
                      (''c'', unit_box 0)]))"
    unfolding spatial_hash_key_collision_simple pair_set_def
    by (simp add: canonical_pair_def)
  have b: "\<lparr>entityA = ''a:b'', entityB = ''c''\<rparr>
     \<in> pair_set (fst (SweepAndPruneBroadphase_queryPairs
          (sweep_and_prune_of [(''a'', unit_box 0), (''a:b'', unit_box 0), (''b:c'', unit_box 0),
                               (''c'', unit_box 0)])))"
    unfolding spatial_hash_key_collision_sap pair_set_def
    by (simp add: canonical_pair_def)
  have c: "\<lparr>entityA = ''a:b'', entityB = ''c''\<rparr>
     \<notin> pair_set (SpatialHashBroadphase_queryPairs
          (spatial_hash_of 10 [(''a'', unit_box 0), (''a:b'', unit_box 0), (''b:c'', unit_box 0),
                               (''c'', unit_box 0)]))"
    unfolding spatial_hash_key_collision_hash pair_set_def
    by (simp add: canonical_pair_def)
  from a b c show ?thesis by metis
qed

subsection \<open>Ray casts\<close>

lemmas raycast_defs =
  raycastAabb_def raycastSphere_def jvec_def unit_normal_def JVec3_add_def JVec3_sub_def
  JVec3_mul_def JVec3_div_def JVec3_dot_def JVec3_length_def JVec3_normalize_def js_sub_def
  js_min_def js_max_def js_gt_def js_ge_def inf_times_def no_hit_def

text \<open>
  C8 fails for raycastAabb. A ray that starts in the plane of a face of the box and runs
  parallel to it (origin (0, -1, 0), direction (0, 1, 0), box from (0, 0, 0) to (1, 1, 1),
  maxDistance 10) multiplies 0 by the infinite inverse direction: the slab parameters are
  NaN, every rejection test is false on NaN, and the call reports a hit whose distance
  and point are NaN. And a ray that starts inside the box (origin (0, 0, 0), direction
  (1, 1, 1), box from (-100, -100, -100) to (100, 100, 100), maxDistance 1) is reported
  as a hit at distance 100, past maxDistance: only tmin is compared with maxDistance,
  the distance returned is tmax.
\<close>

theorem raycastAabb_nan_hit:
  "raycastAabb (jvec 0 (-1) 0) (jvec 0 1 0) \<lparr>jmin = jvec 0 0 0, jmax = jvec 1 1 1\<rparr> (Fin 10)
     = \<lparr>hit = True, distance = Some NaN, point = Some \<lparr>jx = NaN, jy = NaN, jz = NaN\<rparr>,
        ray_normal = Some (jvec 0 0 1)\<rparr>
   \<and> raycastAabb (jvec 0 0 0) (jvec 1 1 1)
        \<lparr>jmin = jvec (-100) (-100) (-100), jmax = jvec 100 100 100\<rparr> (Fin 1)
     = \<lparr>hit = True, distance = Some (Fin 100), point = Some (jvec 100 100 100),
        ray_normal = Some (jvec 1 0 0)\<rparr>"
  by (simp add: raycast_defs Let_def)

text \<open>
  The same ray moved off the face plane is handled as the claim says: the zero
  components give infinite slab parameters and the hit is at distance 1.
\<close>

lemma raycastAabb_parallel_inside_slab:
  "raycastAabb (jvec 0.5 (-1) 0.5) (jvec 0 1 0) \<lparr>jmin = jvec 0 0 0, jmax = jvec 1 1 1\<rparr>
     (Fin 10)
   = \<lparr>hit = True, distance = Some (Fin 1), point = Some (jvec 0.5 0 0.5),
      ray_normal = Some (jvec 0 (-1) 0)\<rparr>"
  by (simp add: raycast_defs Let_def)

text \<open>
  raycastSphere rejects every distance below 0 or above maxDistance, so a hit it reports
  has a distance that is neither; that distance can still be NaN, which passes both
  tests: with the zero vector as direction the quadratic divides 0 by 0.
\<close>

lemma raycastSphere_hit_distance:
  assumes "hit (raycastSphere origin direction center radius maxDistance)"
  shows "\<exists>t. distance (raycastSphere origin direction center radius maxDistance) = Some t
           \<and> \<not> js_lt t (Fin 0) \<and> \<not> js_gt t maxDistance"
  using assms by (auto simp: raycastSphere_def Let_def no_hit_def split: if_splits)

lemma raycastSphere_zero_direction:
  "raycastSphere (jvec 0 0 0) (jvec 0 0 0) (jvec 0 0 0) (Fin 1) (Fin 10)
   = \<lparr>hit = True, distance = Some NaN, point = Some \<lparr>jx = NaN, jy = NaN, jz = NaN\<rparr>,
      ray_normal = Some \<lparr>jx = NaN, jy = NaN, jz = NaN\<rparr>\<rparr>"
  by (simp add: raycast_defs Let_def)

subsection \<open>Determinism of the step hash\<close>

lemmas hashNumber_defs =
  hashNumber_def float64_bits_def float64_magnitude_def float64_exponent_def
  round_half_even_def bit_length.simps Let_def

lemma hashNumber_0: "hashNumber 0 = 0"
  by (simp add: hashNumber_defs split del: if_split)

lemma hashNumber_8: "hashNumber 8 = 0x40200000"
  by (simp add: hashNumber_defs split del: if_split)

lemma hashNumber_4: "hashNumber 4 = 0x40100000"
  by (simp add: hashNumber_defs split del: if_split)

lemma hashNumber_minus_1: "hashNumber (- 1) = 0xbff00000"
  by (simp add: hashNumber_defs split del: if_split)

text \<open>-1.98 is not a double; the nearest one has the pattern 0xBFFFAE147AE147AE.\<close>

lemma float64_bits_minus_198: "float64_bits (- (99 / 50)) = 0xBFFFAE147AE147AE"
  by (simp add: hashNumber_defs split del: if_split)

lemma hashNumber_minus_198: "hashNumber (- (99 / 50)) = 0xc51ee9ba"
  by (simp add: hashNumber_defs split del: if_split)

lemma sqrt_198: "sqrt (9801 / 2500) = 99 / 50"
  by (rule real_sqrt_unique) (simp_all add: power2_eq_square)

lemmas runtime_defs =
  session_def addEntities_def addEntity_def createEntity_def SimulationRuntime_new_def
  createIntegrator_def example_config_def drone_d1_def robot_r1_def example_descriptor_def
  physics_entity_def VerletIntegrator_integrate_def Vec3_add_def Vec3_mul_def Vec3_zero_def
  Vec3_length_def Vec3_lengthSq_def Let_def sqrt_198
  step_def processActions_def physicsStep_def validateStability_def highest_def
  computeStepHash_def recordStepHash_def hashVector3_def combineHashes_def
  hashNumber_0 hashNumber_8 hashNumber_4 hashNumber_minus_1 hashNumber_minus_198
  getStepHashes_def getDeterministicHash_def computeFinalHash_def padStart_def hashes_after_def

text \<open>
  C1 fails with the Verlet integrator. The session owns one integrator object, and its
  \<open>prevAcceleration\<close> is the acceleration of whichever entity was integrated last, so
  the order of the registry enters the velocities. Two sessions with the same
  configuration (timestep 0.5, Verlet, seed 42, strict mode, gravity (0, -8, 0)) and the
  same two entities, a drone d1 at (0, 8, 0) and a robot r1 at (4, 0, 0), added in the two
  orders, run one tick without actions: with d1 first the drone keeps velocity 0, with r1
  first the drone gets the velocity (0, -1.98, 0). The recorded step hashes and the final
  hash strings differ.
\<close>

theorem verlet_insertion_order_leaks:
  "hashes_after [[]] (session (example_config VerletT) [drone_d1, robot_r1])
     = Some ([2180750555], ''000000007e046325'')
   \<and> hashes_after [[]] (session (example_config VerletT) [robot_r1, drone_d1])
     = Some ([196948917], ''000000000bbd33b5'')"
  apply (simp add: runtime_defs split del: if_split)
  apply (simp add: eval_nat_numeral)
  done

lemma verlet_drone_velocity:
  "map (\<lambda>(k, e). (k, ent_velocity e))
     (rt_entities (physicsStep 0.5 (session (example_config VerletT) [drone_d1, robot_r1])))
     = [(''d1'', \<lparr>vx = 0, vy = 0, vz = 0\<rparr>), (''r1'', \<lparr>vx = 0, vy = - (99 / 50), vz = 0\<rparr>)]
   \<and> map (\<lambda>(k, e). (k, ent_velocity e))
     (rt_entities (physicsStep 0.5 (session (example_config VerletT) [robot_r1, drone_d1])))
     = [(''r1'', \<lparr>vx = 0, vy = - (99 / 50), vz = 0\<rparr>),
        (''d1'', \<lparr>vx = 0, vy = - (99 / 50), vz = 0\<rparr>)]"
  by (simp add: runtime_defs split del: if_split)

subsection \<open>Equivalence of the backends on ids without a colon\<close>

lemma list_pairs_subset: "(a, b) \<in> list_pairs xs \<Longrightarrow> a \<in> set xs \<and> b \<in> set xs"
  by (induction xs) auto

lemma list_pairs_distinct: "distinct xs \<Longrightarrow> (a, b) \<in> list_pairs xs \<Longrightarrow> a \<noteq> b"
  by (induction xs) (auto dest: list_pairs_subset)

lemma list_pairs_total:
  "a \<in> set xs \<Longrightarrow> b \<in> set xs \<Longrightarrow> a \<noteq> b \<Longrightarrow> (a, b) \<in> list_pairs xs \<or> (b, a) \<in> list_pairs xs"
  by (induction xs) auto

lemma intersects_sym: "AABBOps_intersects a b = AABBOps_intersects b a"
  by (auto simp: AABBOps_intersects_def)

lemma ordered_pair_sym: "ordered_pair i j = ordered_pair j i"
  by (auto simp: ordered_pair_def)

lemma canonical_ordered_pair [simp]: "canonical_pair (ordered_pair i j) = ordered_pair i j"
  by (auto simp: canonical_pair_def ordered_pair_def)

lemma canonical_pair_eq: "canonical_pair \<lparr>entityA = i, entityB = j\<rparr> = ordered_pair i j"
  by (auto simp: canonical_pair_def ordered_pair_def)

lemma pairs_of_Un: "pairs_of idf bf (A \<union> B) = pairs_of idf bf A \<union> pairs_of idf bf B"
  by (auto simp: pairs_of_def)

lemma pairs_of_empty [simp]: "pairs_of idf bf {} = {}"
  by (simp add: pairs_of_def)

lemma pairs_of_single:
  "pairs_of idf bf {(a, b)}
     = (if AABBOps_intersects (bf a) (bf b) then {ordered_pair (idf a) (idf b)} else {})"
  by (auto simp: pairs_of_def)

lemma pairs_of_row:
  "pairs_of idf bf (Pair a ` set (b # bs))
     = pairs_of idf bf {(a, b)} \<union> pairs_of idf bf (Pair a ` set bs)"
proof -
  have "Pair a ` set (b # bs) = {(a, b)} \<union> Pair a ` set bs" by auto
  then show ?thesis by (simp only: pairs_of_Un)
qed

lemma pairs_of_list_pairs:
  assumes "distinct (map idf xs)"
  shows "pairs_of idf bf (list_pairs xs) = all_pairs idf bf (set xs)"
proof (rule set_eqI, rule iffI)
  have d: "distinct xs" using assms by (rule distinct_map[THEN iffD1, THEN conjunct1])
  fix p assume "p \<in> pairs_of idf bf (list_pairs xs)"
  then obtain a b where ab: "p = ordered_pair (idf a) (idf b)" "(a, b) \<in> list_pairs xs"
    "AABBOps_intersects (bf a) (bf b)" by (auto simp: pairs_of_def)
  have m: "a \<in> set xs" "b \<in> set xs" "a \<noteq> b"
    using list_pairs_subset[OF ab(2)] list_pairs_distinct[OF d ab(2)] by auto
  then have "idf a \<noteq> idf b"
    using assms by (metis distinct_map inj_on_def)
  with m ab show "p \<in> all_pairs idf bf (set xs)"
    unfolding all_pairs_def by blast
next
  fix p assume "p \<in> all_pairs idf bf (set xs)"
  then obtain a b where ij: "p = ordered_pair (idf a) (idf b)" "a \<in> set xs" "b \<in> set xs"
    "idf a \<noteq> idf b" "AABBOps_intersects (bf a) (bf b)"
    unfolding all_pairs_def by blast
  then have "a \<noteq> b" by auto
  from list_pairs_total[OF ij(2,3) this]
  show "p \<in> pairs_of idf bf (list_pairs xs)"
  proof
    assume "(a, b) \<in> list_pairs xs"
    then show ?thesis using ij by (force simp: pairs_of_def image_iff)
  next
    assume "(b, a) \<in> list_pairs xs"
    then show ?thesis
      using ij intersects_sym[of "bf a" "bf b"] ordered_pair_sym[of "idf a" "idf b"]
      by (force simp: pairs_of_def image_iff)
  qed
qed

lemma simple_inner_pairs:
  "canonical_pair ` set (fst (simple_inner a bs (ps, c)))
     = canonical_pair ` set ps \<union> pairs_of fst snd (Pair a ` set bs)"
proof (induction bs arbitrary: ps c)
  case Nil
  then show ?case by simp
next
  case (Cons b bs)
  show ?case
    unfolding pairs_of_row pairs_of_single
    by (simp add: Cons.IH image_Un Un_assoc canonical_pair_eq)
qed

lemma simple_outer_pairs:
  "canonical_pair ` set (fst (simple_outer xs acc))
     = canonical_pair ` set (fst acc) \<union> pairs_of fst snd (list_pairs xs)"
proof (induction xs arbitrary: acc)
  case Nil
  then show ?case by simp
next
  case (Cons a rest)
  obtain ps c where acc: "acc = (ps, c)" by (cases acc)
  obtain ps' c' where r: "simple_inner a rest (ps, c) = (ps', c')"
    by (cases "simple_inner a rest (ps, c)")
  have "canonical_pair ` set ps' = canonical_pair ` set ps \<union> pairs_of fst snd (Pair a ` set rest)"
    using simple_inner_pairs[of a rest ps c] r by simp
  then show ?case
    by (simp add: Cons.IH acc r pairs_of_Un Un_assoc)
qed

lemma foldl_update_fresh_gen:
  "distinct (map fst acc @ map fst es) \<Longrightarrow>
   foldl (\<lambda>m (k, v). AList.update k v m) acc es = acc @ es"
proof (induction es arbitrary: acc)
  case Nil
  then show ?case by simp
next
  case (Cons e es)
  obtain k v where e: "e = (k, v)" by (cases e)
  have "k \<notin> fst ` set acc" using Cons.prems e by auto
  then have u: "AList.update k v acc = acc @ [(k, v)]"
    by (induction acc) auto
  have "distinct (map fst (acc @ [(k, v)]) @ map fst es)"
    using Cons.prems e by auto
  from Cons.IH[OF this] show ?case by (simp add: u e)
qed

lemma simple_of_distinct: "distinct (map fst ins) \<Longrightarrow> simple_of ins = ins"
  using foldl_update_fresh_gen[of "[]" ins]
  by (simp add: simple_of_def SimpleBroadphase_insert_def)

lemma simple_pair_set:
  assumes "distinct (map fst ins)"
  shows "pair_set (SimpleBroadphase_queryPairs (simple_of ins)) = colliding_pairs ins"
proof -
  have "pairs (SimpleBroadphase_queryPairs ins) = fst (simple_outer ins ([], 0))"
    by (simp add: SimpleBroadphase_queryPairs_def split: prod.splits)
  then have "pair_set (SimpleBroadphase_queryPairs ins) = pairs_of fst snd (list_pairs ins)"
    by (simp add: pair_set_def simple_outer_pairs)
  then show ?thesis
    using simple_of_distinct[OF assms] pairs_of_list_pairs[OF assms, of snd]
    by (simp add: colliding_pairs_def)
qed

lemma sap_entries_foldl:
  "entries (foldl (\<lambda>st (i, b). SweepAndPruneBroadphase_insert i b st) st ins)
     = entries st @ map mk_entry ins"
  by (induction ins arbitrary: st)
     (auto simp: SweepAndPruneBroadphase_insert_def mk_entry_def Let_def)

lemma sap_entries: "entries (sweep_and_prune_of ins) = map mk_entry ins"
  by (simp add: sweep_and_prune_of_def sap_entries_foldl SweepAndPruneBroadphase_new_def)

lemma sap_inner_pairs:
  assumes "entry_ok a" "\<forall>b \<in> set bs. entry_ok b" "sorted (map minX bs)"
  shows "set (fst (sap_inner a bs (ps, c)))
     = set ps \<union> pairs_of sap_id sap_bounds (Pair a ` set bs)"
  using assms
proof (induction bs arbitrary: ps c)
  case Nil
  then show ?case by simp
next
  case (Cons b bs)
  show ?case
  proof (cases "minX b > maxX a")
    case True
    have "\<not> AABBOps_intersects (sap_bounds a) (sap_bounds b')" if "b' \<in> set (b # bs)" for b'
    proof -
      have "minX b \<le> minX b'" using that Cons.prems(3) by auto
      then have "vx (aabb_max (sap_bounds a)) < vx (aabb_min (sap_bounds b'))"
        using True Cons.prems(1,2) that by (auto simp: entry_ok_def)
      then show ?thesis by (auto simp: AABBOps_intersects_def)
    qed
    then have "pairs_of sap_id sap_bounds (Pair a ` set (b # bs)) = {}"
      by (auto simp: pairs_of_def)
    then show ?thesis using True by simp
  next
    case False
    have ih: "set (fst (sap_inner a bs (ps', c')))
       = set ps' \<union> pairs_of sap_id sap_bounds (Pair a ` set bs)" for ps' c'
      using Cons.IH[of ps' c'] Cons.prems by simp
    show ?thesis
      unfolding pairs_of_row pairs_of_single
      using False by (simp add: ih Un_assoc ordered_pair_def)
  qed
qed

lemma sap_outer_pairs:
  assumes "\<forall>b \<in> set xs. entry_ok b" "sorted (map minX xs)"
  shows "set (fst (sap_outer xs acc))
     = set (fst acc) \<union> pairs_of sap_id sap_bounds (list_pairs xs)"
  using assms
proof (induction xs arbitrary: acc)
  case Nil
  then show ?case by simp
next
  case (Cons a rest)
  obtain ps c where acc: "acc = (ps, c)" by (cases acc)
  obtain ps' c' where r: "sap_inner a rest (ps, c) = (ps', c')"
    by (cases "sap_inner a rest (ps, c)")
  have "set ps' = set ps \<union> pairs_of sap_id sap_bounds (Pair a ` set rest)"
    using sap_inner_pairs[of a rest ps c] r Cons.prems by simp
  moreover have "set (fst (sap_outer rest (ps', c')))
     = set ps' \<union> pairs_of sap_id sap_bounds (list_pairs rest)"
    using Cons.IH[of "(ps', c')"] Cons.prems by simp
  ultimately show ?case
    by (simp add: acc r pairs_of_Un Un_assoc)
qed

lemma canonical_pairs_of: "canonical_pair ` pairs_of idf bf R = pairs_of idf bf R"
  by (simp add: pairs_of_def image_image)

lemma all_pairs_image:
  "all_pairs idf bf (g ` X) = all_pairs (\<lambda>a. idf (g a)) (\<lambda>a. bf (g a)) X"
proof (rule set_eqI, rule iffI)
  fix p assume "p \<in> all_pairs idf bf (g ` X)"
  then obtain a b where "p = ordered_pair (idf (g a)) (idf (g b))" "a \<in> X" "b \<in> X"
    "idf (g a) \<noteq> idf (g b)" "AABBOps_intersects (bf (g a)) (bf (g b))"
    unfolding all_pairs_def by blast
  then show "p \<in> all_pairs (\<lambda>a. idf (g a)) (\<lambda>a. bf (g a)) X"
    unfolding all_pairs_def by blast
next
  fix p assume "p \<in> all_pairs (\<lambda>a. idf (g a)) (\<lambda>a. bf (g a)) X"
  then obtain a b where "p = ordered_pair (idf (g a)) (idf (g b))" "a \<in> X" "b \<in> X"
    "idf (g a) \<noteq> idf (g b)" "AABBOps_intersects (bf (g a)) (bf (g b))"
    unfolding all_pairs_def by blast
  then show "p \<in> all_pairs idf bf (g ` X)"
    unfolding all_pairs_def by blast
qed

lemma sap_pair_set:
  assumes "distinct (map fst ins)"
  shows "pair_set (fst (SweepAndPruneBroadphase_queryPairs (sweep_and_prune_of ins)))
           = colliding_pairs ins"
proof -
  define xs where "xs = sort_key minX (map mk_entry ins)"
  have ok: "\<forall>b \<in> set xs. entry_ok b"
    by (auto simp: xs_def entry_ok_def mk_entry_def)
  have so: "sorted (map minX xs)" by (simp add: xs_def)
  have "map sap_id (map mk_entry ins) = map fst ins"
    by (induction ins) (auto simp: mk_entry_def)
  then have "distinct (map sap_id (map mk_entry ins))" using assms by (simp only:)
  then have di: "distinct (map sap_id xs)"
    unfolding xs_def by (metis distinct_map distinct_sort set_sort)
  have "pairs (fst (SweepAndPruneBroadphase_queryPairs (sweep_and_prune_of ins)))
          = fst (sap_outer xs ([], 0))"
    by (simp add: SweepAndPruneBroadphase_queryPairs_def sap_entries xs_def Let_def
        split: prod.splits)
  then have "pair_set (fst (SweepAndPruneBroadphase_queryPairs (sweep_and_prune_of ins)))
          = pairs_of sap_id sap_bounds (list_pairs xs)"
    by (simp add: pair_set_def sap_outer_pairs[OF ok so] canonical_pairs_of)
  also have "\<dots> = all_pairs sap_id sap_bounds (set xs)"
    by (rule pairs_of_list_pairs[OF di])
  also have "set xs = mk_entry ` set ins" by (simp add: xs_def)
  also have "all_pairs sap_id sap_bounds (mk_entry ` set ins) = colliding_pairs ins"
    by (simp add: all_pairs_image colliding_pairs_def mk_entry_def)
  finally show ?thesis .
qed

lemma set_pairs_list: "set (pairs_list xs) = list_pairs xs"
  by (induction xs) auto

lemma hash_inner_visit:
  "fst (hash_inner eb a rest (ps, c)) = foldl (visit eb) ps (map (Pair a) rest)"
proof (induction rest arbitrary: ps c)
  case Nil
  then show ?case by simp
next
  case (Cons b rest)
  show ?case
    by (simp add: Cons.IH visit_def Let_def ordered_pair_def split: option.splits)
qed

lemma hash_cell_visit:
  "fst (hash_cell eb ids acc) = foldl (visit eb) (fst acc) (pairs_list ids)"
proof (induction ids arbitrary: acc)
  case Nil
  then show ?case by simp
next
  case (Cons a rest)
  obtain ps c where acc: "acc = (ps, c)" by (cases acc)
  obtain ps' c' where r: "hash_inner eb a rest (ps, c) = (ps', c')"
    by (cases "hash_inner eb a rest (ps, c)")
  have "ps' = foldl (visit eb) ps (map (Pair a) rest)"
    using hash_inner_visit[of eb a rest ps c] r by simp
  then show ?case
    by (simp add: Cons.IH acc r)
qed

lemma hash_cells_visit:
  "fst (foldl (\<lambda>acc (c, ids). hash_cell eb ids acc) acc cl)
     = foldl (visit eb) (fst acc) (concat (map (\<lambda>(c, ids). pairs_list ids) cl))"
proof (induction cl arbitrary: acc)
  case Nil
  then show ?case by simp
next
  case (Cons x cl)
  obtain c ids where x: "x = (c, ids)" by (cases x)
  show ?case
    by (simp add: Cons.IH x hash_cell_visit)
qed

lemma pair_key_inj:
  assumes "colon_free i" "colon_free j" "colon_free i'" "colon_free j'"
    and "pair_key i j = pair_key i' j'"
  shows "ordered_pair i j = ordered_pair i' j'"
  using assms
  by (auto simp: pair_key_def ordered_pair_def colon_free_def append_Cons_eq_iff
      split: if_splits)

lemma pair_key_ordered:
  "i \<noteq> j \<Longrightarrow> pair_key (entityA (ordered_pair i j)) (entityB (ordered_pair i j)) = pair_key i j"
  by (auto simp: pair_key_def ordered_pair_def)

lemma update_fresh: "map_of al k = None \<Longrightarrow> AList.update k v al = al @ [(k, v)]"
  by (induction al) (auto split: if_splits)

lemma visit_cases:
  "visit eb ps ab = ps
   \<or> (map_of ps (pair_key (fst ab) (snd ab)) = None
      \<and> (\<exists>ba bb. map_of eb (fst ab) = Some ba \<and> map_of eb (snd ab) = Some bb
            \<and> AABBOps_intersects ba bb)
      \<and> visit eb ps ab = ps @ [(pair_key (fst ab) (snd ab), ordered_pair (fst ab) (snd ab))])"
  by (auto simp: visit_def update_fresh split: option.splits)

lemma visit_sound:
  assumes "sound eb ps" "fst ab \<noteq> snd ab"
  shows "sound eb (visit eb ps ab)"
proof -
  from visit_cases[of eb ps ab] show ?thesis
  proof
    assume "visit eb ps ab = ps"
    then show ?thesis using assms by simp
  next
    assume h: "map_of ps (pair_key (fst ab) (snd ab)) = None
      \<and> (\<exists>ba bb. map_of eb (fst ab) = Some ba \<and> map_of eb (snd ab) = Some bb
            \<and> AABBOps_intersects ba bb)
      \<and> visit eb ps ab = ps @ [(pair_key (fst ab) (snd ab), ordered_pair (fst ab) (snd ab))]"
    then obtain ba bb where b: "map_of eb (fst ab) = Some ba" "map_of eb (snd ab) = Some bb"
      "AABBOps_intersects ba bb" by blast
    have "(fst ab, ba) \<in> set eb" "(snd ab, bb) \<in> set eb"
      using b by (auto dest: map_of_SomeD)
    then have "ordered_pair (fst ab) (snd ab) \<in> all_pairs fst snd (set eb)"
      unfolding all_pairs_def using assms(2) b(3) by force
    then show ?thesis
      using h assms by (auto simp: sound_def pair_key_ordered)
  qed
qed

lemma visit_mono: "snd ` set ps \<subseteq> snd ` set (visit eb ps ab)"
  using visit_cases[of eb ps ab] by auto

lemma visit_covers:
  assumes "sound eb ps" "\<forall>i \<in> fst ` set eb. colon_free i"
    and "map_of eb a = Some ba" "map_of eb b = Some bb" "a \<noteq> b" "AABBOps_intersects ba bb"
  shows "ordered_pair a b \<in> snd ` set (visit eb ps (a, b))"
proof (cases "map_of ps (pair_key a b)")
  case None
  then have "visit eb ps (a, b) = ps @ [(pair_key a b, ordered_pair a b)]"
    using assms by (simp add: visit_def update_fresh)
  then show ?thesis by simp
next
  case (Some p)
  then have in_ps: "(pair_key a b, p) \<in> set ps" by (rule map_of_SomeD)
  with assms(1) have p: "p \<in> all_pairs fst snd (set eb)"
    "pair_key a b = pair_key (entityA p) (entityB p)"
    by (auto simp: sound_def)
  from p(1) obtain x y where xy: "p = ordered_pair (fst x) (fst y)" "x \<in> set eb" "y \<in> set eb"
    "fst x \<noteq> fst y"
    unfolding all_pairs_def by blast
  have cf: "colon_free (fst x)" "colon_free (fst y)" "colon_free a" "colon_free b"
    using assms(2,3,4) xy(2,3) by (auto dest!: map_of_SomeD simp: image_iff Ball_def) 
  have "pair_key a b = pair_key (fst x) (fst y)"
    using p(2) xy(1,4) by (simp add: pair_key_ordered)
  from pair_key_inj[OF cf(3,4,1,2) this] have "p = ordered_pair a b" using xy(1) by simp
  moreover have "visit eb ps (a, b) = ps" using Some by (simp add: visit_def)
  ultimately show ?thesis using in_ps by force
qed

lemma foldl_visit:
  assumes "sound eb ps" "\<forall>ab \<in> set vs. fst ab \<noteq> snd ab" "\<forall>i \<in> fst ` set eb. colon_free i"
  shows "sound eb (foldl (visit eb) ps vs)
     \<and> snd ` set ps \<subseteq> snd ` set (foldl (visit eb) ps vs)
     \<and> (\<forall>ab \<in> set vs. \<forall>ba bb. map_of eb (fst ab) = Some ba \<and> map_of eb (snd ab) = Some bb
            \<and> AABBOps_intersects ba bb
          \<longrightarrow> ordered_pair (fst ab) (snd ab) \<in> snd ` set (foldl (visit eb) ps vs))"
  using assms(1,2)
proof (induction vs arbitrary: ps)
  case Nil
  then show ?case by simp
next
  case (Cons v vs)
  have s1: "sound eb (visit eb ps v)"
    using visit_sound[OF Cons.prems(1)] Cons.prems(2) by simp
  have ih: "sound eb (foldl (visit eb) (visit eb ps v) vs)"
    "snd ` set (visit eb ps v) \<subseteq> snd ` set (foldl (visit eb) (visit eb ps v) vs)"
    "\<forall>ab \<in> set vs. \<forall>ba bb. map_of eb (fst ab) = Some ba \<and> map_of eb (snd ab) = Some bb
            \<and> AABBOps_intersects ba bb
          \<longrightarrow> ordered_pair (fst ab) (snd ab) \<in> snd ` set (foldl (visit eb) (visit eb ps v) vs)"
    using Cons.IH[OF s1] Cons.prems(2) by auto
  have cov: "ordered_pair (fst v) (snd v) \<in> snd ` set (foldl (visit eb) (visit eb ps v) vs)"
    if "map_of eb (fst v) = Some ba" "map_of eb (snd v) = Some bb" "AABBOps_intersects ba bb"
    for ba bb
  proof -
    have "fst v \<noteq> snd v" using Cons.prems(2) by simp
    from visit_covers[OF Cons.prems(1) assms(3) that(1,2) this that(3)]
    show ?thesis using ih(2) by auto
  qed
  have m: "snd ` set ps \<subseteq> snd ` set (foldl (visit eb) (visit eb ps v) vs)"
    using visit_mono[of ps eb v] ih(2) by (rule subset_trans)
  show ?case
  proof (intro conjI ballI allI impI)
    show "sound eb (foldl (visit eb) ps (v # vs))" using ih(1) by simp
    show "snd ` set ps \<subseteq> snd ` set (foldl (visit eb) ps (v # vs))" using m by simp
    fix ab ba bb
    assume ab: "ab \<in> set (v # vs)"
      and b: "map_of eb (fst ab) = Some ba \<and> map_of eb (snd ab) = Some bb
                \<and> AABBOps_intersects ba bb"
    show "ordered_pair (fst ab) (snd ab) \<in> snd ` set (foldl (visit eb) ps (v # vs))"
    proof (cases "ab = v")
      case True
      then show ?thesis using cov[of ba bb] b by simp
    next
      case False
      then have "ab \<in> set vs" using ab by simp
      then show ?thesis using ih(3) b by simp
    qed
  qed
qed

lemma add_to_cell_members:
  "cell_members (add_to_cell i m c) c'
     = (if c' = c then insert i (cell_members m c) else cell_members m c')"
  by (auto simp: cell_members_def add_to_cell_def update_conv' set_add_def split: option.splits)

lemma add_to_cell_ok:
  assumes "cells_ok m"
  shows "cells_ok (add_to_cell i m c)"
proof -
  have d: "distinct (set_add i ids)" if "distinct ids" for ids
    using that by (simp add: set_add_def)
  show ?thesis
  proof (cases "map_of m c")
    case None
    then show ?thesis
      using assms set_update_subset[of c "set_add i []" m]
      by (auto simp: cells_ok_def add_to_cell_def distinct_update set_add_def)
  next
    case (Some ids)
    then have "(c, ids) \<in> set m" by (rule map_of_SomeD)
    then have "distinct ids" using assms by (auto simp: cells_ok_def)
    then show ?thesis
      using assms Some set_update_subset[of c "set_add i ids" m] d[of ids]
      by (auto simp: cells_ok_def add_to_cell_def distinct_update)
  qed
qed

lemma foldl_add_to_cell:
  "cell_members (foldl (add_to_cell i) m cs) c'
     = cell_members m c' \<union> (if c' \<in> set cs then {i} else {})"
  by (induction cs arbitrary: m) (auto simp: add_to_cell_members)

lemma foldl_add_to_cell_ok:
  "cells_ok m \<Longrightarrow> cells_ok (foldl (add_to_cell i) m cs)"
  by (induction cs arbitrary: m) (auto simp: add_to_cell_ok)

lemma sh_cellSize:
  "cellSize (foldl (\<lambda>st (i, b). SpatialHashBroadphase_insert i b st) st ins) = cellSize st"
  by (induction ins arbitrary: st) (auto simp: SpatialHashBroadphase_insert_def Let_def)

lemma sh_entityBounds:
  "entityBounds (foldl (\<lambda>st (i, b). SpatialHashBroadphase_insert i b st) st ins)
     = foldl (\<lambda>m (k, v). AList.update k v m) (entityBounds st) ins"
  by (induction ins arbitrary: st) (auto simp: SpatialHashBroadphase_insert_def Let_def)

lemma sh_cells_ok:
  "cells_ok (cells st) \<Longrightarrow>
   cells_ok (cells (foldl (\<lambda>st (i, b). SpatialHashBroadphase_insert i b st) st ins))"
  by (induction ins arbitrary: st)
     (auto simp: SpatialHashBroadphase_insert_def Let_def foldl_add_to_cell_ok)

lemma sh_cell_members:
  "cell_members (cells (foldl (\<lambda>st (i, b). SpatialHashBroadphase_insert i b st) st ins)) c
     = cell_members (cells st) c
       \<union> {i. \<exists>b. (i, b) \<in> set ins \<and> c \<in> set (getCellsForBounds (cellSize st) b)}"
proof (induction ins arbitrary: st)
  case Nil
  then show ?case by simp
next
  case (Cons x ins)
  obtain i b where x: "x = (i, b)" by (cases x)
  have cs1: "cellSize (SpatialHashBroadphase_insert i b st) = cellSize st"
    by (simp add: SpatialHashBroadphase_insert_def Let_def)
  have c1: "cell_members (cells (SpatialHashBroadphase_insert i b st)) c
      = cell_members (cells st) c
        \<union> (if c \<in> set (getCellsForBounds (cellSize st) b) then {i} else {})"
    by (simp add: SpatialHashBroadphase_insert_def Let_def foldl_add_to_cell)
  show ?case
    unfolding x foldl_Cons prod.case Cons.IH cs1 c1
    by auto
qed

lemma set_getCellsForBounds:
  "(kx, ky, kz) \<in> set (getCellsForBounds cs b)
     \<longleftrightarrow> \<lfloor>vx (aabb_min b) / cs\<rfloor> \<le> kx \<and> kx \<le> \<lfloor>vx (aabb_max b) / cs\<rfloor>
         \<and> \<lfloor>vy (aabb_min b) / cs\<rfloor> \<le> ky \<and> ky \<le> \<lfloor>vy (aabb_max b) / cs\<rfloor>
         \<and> \<lfloor>vz (aabb_min b) / cs\<rfloor> \<le> kz \<and> kz \<le> \<lfloor>vz (aabb_max b) / cs\<rfloor>"
proof -
  have grid: "(kx, ky, kz) \<in> (\<Union>x\<in>A. \<Union>y\<in>B. (\<lambda>z. (x, y, z)) ` C)
                \<longleftrightarrow> kx \<in> A \<and> ky \<in> B \<and> kz \<in> C" for A B C :: "int set"
    by blast
  show ?thesis
    unfolding getCellsForBounds_def Let_def set_concat set_map image_image grid
    by simp
qed

lemma axis_share:
  fixes lo1 hi1 lo2 hi2 cs :: real
  assumes "0 < cs" "lo1 \<le> hi1" "lo2 \<le> hi2" "lo1 \<le> hi2" "hi1 \<ge> lo2"
  shows "\<exists>k::int. \<lfloor>lo1 / cs\<rfloor> \<le> k \<and> k \<le> \<lfloor>hi1 / cs\<rfloor> \<and> \<lfloor>lo2 / cs\<rfloor> \<le> k \<and> k \<le> \<lfloor>hi2 / cs\<rfloor>"
proof -
  define p where "p = max lo1 lo2"
  have "lo1 \<le> p" "p \<le> hi1" "lo2 \<le> p" "p \<le> hi2"
    using assms by (auto simp: p_def)
  then have "lo1 / cs \<le> p / cs" "p / cs \<le> hi1 / cs" "lo2 / cs \<le> p / cs" "p / cs \<le> hi2 / cs"
    using assms(1) by (auto simp: divide_right_mono)
  then show ?thesis
    by (intro exI[of _ "\<lfloor>p / cs\<rfloor>"]) (auto intro: floor_mono)
qed

lemma share_cell:
  assumes "0 < cs" "valid_aabb a" "valid_aabb b" "AABBOps_intersects a b"
  shows "\<exists>c. c \<in> set (getCellsForBounds cs a) \<and> c \<in> set (getCellsForBounds cs b)"
proof -
  obtain kx :: int where kx: "\<lfloor>vx (aabb_min a) / cs\<rfloor> \<le> kx" "kx \<le> \<lfloor>vx (aabb_max a) / cs\<rfloor>"
    "\<lfloor>vx (aabb_min b) / cs\<rfloor> \<le> kx" "kx \<le> \<lfloor>vx (aabb_max b) / cs\<rfloor>"
    using axis_share[of cs "vx (aabb_min a)" "vx (aabb_max a)" "vx (aabb_min b)" "vx (aabb_max b)"]
      assms by (auto simp: valid_aabb_def AABBOps_intersects_def)
  obtain ky :: int where ky: "\<lfloor>vy (aabb_min a) / cs\<rfloor> \<le> ky" "ky \<le> \<lfloor>vy (aabb_max a) / cs\<rfloor>"
    "\<lfloor>vy (aabb_min b) / cs\<rfloor> \<le> ky" "ky \<le> \<lfloor>vy (aabb_max b) / cs\<rfloor>"
    using axis_share[of cs "vy (aabb_min a)" "vy (aabb_max a)" "vy (aabb_min b)" "vy (aabb_max b)"]
      assms by (auto simp: valid_aabb_def AABBOps_intersects_def)
  obtain kz :: int where kz: "\<lfloor>vz (aabb_min a) / cs\<rfloor> \<le> kz" "kz \<le> \<lfloor>vz (aabb_max a) / cs\<rfloor>"
    "\<lfloor>vz (aabb_min b) / cs\<rfloor> \<le> kz" "kz \<le> \<lfloor>vz (aabb_max b) / cs\<rfloor>"
    using axis_share[of cs "vz (aabb_min a)" "vz (aabb_max a)" "vz (aabb_min b)" "vz (aabb_max b)"]
      assms by (auto simp: valid_aabb_def AABBOps_intersects_def)
  show ?thesis
    by (rule exI[of _ "(kx, ky, kz)"]) (simp add: set_getCellsForBounds kx ky kz)
qed

lemma spatial_hash_pair_set:
  assumes d: "distinct (map fst ins)"
    and v: "\<forall>ib \<in> set ins. valid_aabb (snd ib)"
    and cs: "0 < cs"
    and cf: "\<forall>i \<in> fst ` set ins. colon_free i"
  shows "pair_set (SpatialHashBroadphase_queryPairs (spatial_hash_of cs ins)) = colliding_pairs ins"
proof -
  define st where "st = spatial_hash_of cs ins"
  define cl where "cl = cells st"
  define vs where "vs = concat (map (\<lambda>(c, ids). pairs_list ids) cl)"
  define ps where "ps = foldl (visit ins) [] vs"
  have eb: "entityBounds st = ins"
    using foldl_update_fresh_gen[of "[]" ins] d
    by (simp add: st_def spatial_hash_of_def sh_entityBounds SpatialHashBroadphase_new_def)
  have ok: "cells_ok cl"
    unfolding cl_def st_def spatial_hash_of_def
    by (rule sh_cells_ok) (simp add: SpatialHashBroadphase_new_def cells_ok_def)
  have mem: "cell_members cl c = {i. \<exists>b. (i, b) \<in> set ins \<and> c \<in> set (getCellsForBounds cs b)}"
    for c
    unfolding cl_def st_def spatial_hash_of_def sh_cell_members
    by (simp add: SpatialHashBroadphase_new_def cell_members_def)
  obtain fp fc where f: "foldl (\<lambda>acc (c, ids). hash_cell ins ids acc) ([], 0) cl = (fp, fc)"
    by (cases "foldl (\<lambda>acc (c, ids). hash_cell ins ids acc) ([], 0) cl")
  have "fp = ps"
    using hash_cells_visit[of ins "([], 0)" cl] f by (simp add: ps_def vs_def)
  then have res: "pairs (SpatialHashBroadphase_queryPairs st) = map snd ps"
    using f by (simp add: SpatialHashBroadphase_queryPairs_def eb cl_def[symmetric])
  have ne: "\<forall>ab \<in> set vs. fst ab \<noteq> snd ab"
  proof
    fix ab assume "ab \<in> set vs"
    then obtain c ids where cid: "(c, ids) \<in> set cl" "ab \<in> set (pairs_list ids)"
      by (auto simp: vs_def)
    then have "distinct ids" using ok by (auto simp: cells_ok_def)
    moreover have "(fst ab, snd ab) \<in> list_pairs ids"
      using cid(2) by (simp add: set_pairs_list)
    ultimately show "fst ab \<noteq> snd ab" by (rule list_pairs_distinct)
  qed
  have s0: "sound ins []" by (simp add: sound_def)
  note fv = foldl_visit[OF s0 ne cf, folded ps_def]
  have sound_ps: "sound ins ps" using fv by simp
  have cov_all: "\<forall>ab \<in> set vs. \<forall>ba bb. map_of ins (fst ab) = Some ba
        \<and> map_of ins (snd ab) = Some bb \<and> AABBOps_intersects ba bb
      \<longrightarrow> ordered_pair (fst ab) (snd ab) \<in> snd ` set ps"
    using fv by (rule conjunct2[THEN conjunct2])
  have covers: "ordered_pair a b \<in> snd ` set ps"
    if "(a, b) \<in> set vs" "map_of ins a = Some ba" "map_of ins b = Some bb"
      "AABBOps_intersects ba bb" for a b ba bb
    using cov_all[rule_format, of "(a, b)" ba bb] that by simp
  have "pair_set (SpatialHashBroadphase_queryPairs st) = canonical_pair ` snd ` set ps"
    by (simp add: pair_set_def res)
  also have "\<dots> = colliding_pairs ins"
  proof (rule set_eqI, rule iffI)
    fix p assume "p \<in> canonical_pair ` snd ` set ps"
    then obtain q where q: "q \<in> snd ` set ps" "p = canonical_pair q" by blast
    then have "q \<in> all_pairs fst snd (set ins)" using sound_ps by (auto simp: sound_def)
    moreover then have "canonical_pair q = q"
      unfolding all_pairs_def by (auto simp del: canonical_ordered_pair
        simp add: canonical_ordered_pair)
    ultimately show "p \<in> colliding_pairs ins" using q by (simp add: colliding_pairs_def)
  next
    fix p assume "p \<in> colliding_pairs ins"
    then obtain x y where xy: "p = ordered_pair (fst x) (fst y)" "x \<in> set ins" "y \<in> set ins"
      "fst x \<noteq> fst y" "AABBOps_intersects (snd x) (snd y)"
      unfolding colliding_pairs_def all_pairs_def by blast
    have mx: "map_of ins (fst x) = Some (snd x)" and my: "map_of ins (fst y) = Some (snd y)"
      using d xy(2,3) by (auto intro: map_of_is_SomeI)
    obtain c where c: "c \<in> set (getCellsForBounds cs (snd x))"
      "c \<in> set (getCellsForBounds cs (snd y))"
      using share_cell[OF cs _ _ xy(5)] v xy(2,3) by blast
    have "(fst x, snd x) \<in> set ins" "(fst y, snd y) \<in> set ins" using xy(2,3) by simp_all
    then have "fst x \<in> cell_members cl c" "fst y \<in> cell_members cl c"
      using c unfolding mem by blast+
    then obtain ids where ids: "map_of cl c = Some ids" "fst x \<in> set ids" "fst y \<in> set ids"
      by (auto simp: cell_members_def split: option.splits)
    then have incl: "(c, ids) \<in> set cl" by (auto dest: map_of_SomeD)
    from list_pairs_total[OF ids(2,3) xy(4)]
    have "ordered_pair (fst x) (fst y) \<in> snd ` set ps"
    proof
      assume "(fst x, fst y) \<in> list_pairs ids"
      then have "(fst x, fst y) \<in> set (pairs_list ids)" by (simp add: set_pairs_list)
      then have "(fst x, fst y) \<in> set vs"
        unfolding vs_def set_concat set_map using incl by blast
      from covers[OF this mx my xy(5)] show ?thesis .
    next
      assume "(fst y, fst x) \<in> list_pairs ids"
      then have "(fst y, fst x) \<in> set (pairs_list ids)" by (simp add: set_pairs_list)
      then have "(fst y, fst x) \<in> set vs"
        unfolding vs_def set_concat set_map using incl by blast
      from covers[OF this my mx] xy(5) intersects_sym[of "snd x" "snd y"]
      show ?thesis by (simp add: ordered_pair_sym[of "fst x" "fst y"])
    qed
    then have "canonical_pair (ordered_pair (fst x) (fst y)) \<in> canonical_pair ` snd ` set ps"
      by (rule imageI)
    then show "p \<in> canonical_pair ` snd ` set ps" using xy(1) by simp
  qed
  finally show ?thesis by (simp add: st_def)
qed

lemma broadphase_equivalence_colon_free:
  assumes "distinct (map fst ins)"
    and "\<forall>ib \<in> set ins. valid_aabb (snd ib)"
    and "0 < cs"
    and "\<forall>i \<in> fst ` set ins. colon_free i"
  shows "pair_set (SimpleBroadphase_queryPairs (simple_of ins))
           = pair_set (SpatialHashBroadphase_queryPairs (spatial_hash_of cs ins))
       \<and> pair_set (SimpleBroadphase_queryPairs (simple_of ins))
           = pair_set (fst (SweepAndPruneBroadphase_queryPairs (sweep_and_prune_of ins)))"
  using simple_pair_set[OF assms(1)] sap_pair_set[OF assms(1)] spatial_hash_pair_set[OF assms]
  by simp

text \<open>
  The equivalence at a concrete input: three boxes, the first two overlapping, inserted
  with the larger id first.
\<close>

lemma broadphase_equivalence_example:
  "pair_set (SimpleBroadphase_queryPairs
       (simple_of [(''b'', unit_box 0), (''a'', unit_box 0.5), (''c'', unit_box 5)]))
     = {\<lparr>entityA = ''a'', entityB = ''b''\<rparr>}
   \<and> pair_set (SpatialHashBroadphase_queryPairs
       (spatial_hash_of 10 [(''b'', unit_box 0), (''a'', unit_box 0.5), (''c'', unit_box 5)]))
     = {\<lparr>entityA = ''a'', entityB = ''b''\<rparr>}
   \<and> pair_set (fst (SweepAndPruneBroadphase_queryPairs
       (sweep_and_prune_of [(''b'', unit_box 0), (''a'', unit_box 0.5), (''c'', unit_box 5)])))
     = {\<lparr>entityA = ''a'', entityB = ''b''\<rparr>}"
proof -
  have s: "pair_set (SimpleBroadphase_queryPairs
       (simple_of [(''b'', unit_box 0), (''a'', unit_box 0.5), (''c'', unit_box 5)]))
     = {\<lparr>entityA = ''a'', entityB = ''b''\<rparr>}"
    by (simp add: broadphase_defs pair_set_def canonical_pair_def Let_def)
  have h: "distinct (map fst [(''b'', unit_box 0), (''a'', unit_box 0.5), (''c'', unit_box 5)])"
    "\<forall>ib \<in> set [(''b'', unit_box 0), (''a'', unit_box 0.5), (''c'', unit_box 5)].
       valid_aabb (snd ib)"
    "(0::real) < 10"
    "\<forall>i \<in> fst ` set [(''b'', unit_box 0), (''a'', unit_box 0.5), (''c'', unit_box 5)].
       colon_free i"
    by (simp_all add: valid_aabb_def unit_box_def colon_free_def)
  from broadphase_equivalence_colon_free[OF h] s show ?thesis by metis
qed

subsection \<open>Insertion order and the integrators without a field\<close>

text \<open>
  With the Euler, semi-implicit Euler or RK4 integrator the order in which the entities
  were added does not reach the hashes: two sessions with the same configuration and the
  same entities (distinct ids), added in any two orders and fed the same actions, record
  the same step hashes and return the same final hash, or fail with the same error.
\<close>

lemma same_registry_set: "same_registry xs ys \<Longrightarrow> set xs = set ys"
proof -
  assume h: "same_registry xs ys"
  have "(k, v) \<in> set xs \<longleftrightarrow> (k, v) \<in> set ys" for k v
    using h map_of_eq_Some_iff[of xs k v] map_of_eq_Some_iff[of ys k v]
    by (simp add: same_registry_def)
  then show ?thesis by auto
qed

lemma same_registry_update:
  "same_registry xs ys \<Longrightarrow> same_registry (AList.update k v xs) (AList.update k v ys)"
  by (simp add: same_registry_def distinct_update update_conv')

lemma same_registry_map:
  assumes "same_registry xs ys"
  shows "same_registry (map (\<lambda>(k, e). (k, f e)) xs) (map (\<lambda>(k, e). (k, f e)) ys)"
proof -
  have k: "map fst (map (\<lambda>(k, e). (k, f e)) zs) = map fst zs" for zs :: "(string \<times> Entity) list"
    by (induction zs) auto
  have m: "map_of (map (\<lambda>(k, e). (k, f e)) zs) = map_option f \<circ> map_of zs"
    for zs :: "(string \<times> Entity) list"
    by (induction zs) (auto simp: fun_eq_iff)
  show ?thesis using assms unfolding same_registry_def k m by simp
qed

lemma similar_fields:
  assumes "similar a b"
  shows "rt_config b = rt_config a" "rt_integrator b = rt_integrator a"
    "deterministicRuntime b = deterministicRuntime a" "rt_currentStep b = rt_currentStep a"
    "simulationTime b = simulationTime a" "initialized b = initialized a"
    "totalCollisions b = totalCollisions a"
proof -
  from assms have e: "b = a\<lparr>rt_entities := rt_entities b\<rparr>" by (simp add: similar_def)
  show "rt_config b = rt_config a" by (subst e) simp
  show "rt_integrator b = rt_integrator a" by (subst e) simp
  show "deterministicRuntime b = deterministicRuntime a" by (subst e) simp
  show "rt_currentStep b = rt_currentStep a" by (subst e) simp
  show "simulationTime b = simulationTime a" by (subst e) simp
  show "initialized b = initialized a" by (subst e) simp
  show "totalCollisions b = totalCollisions a" by (subst e) simp
qed

lemma similarI:
  assumes "same_registry (rt_entities a) (rt_entities b)" "stateless (rt_integrator a)"
    "rt_config b = rt_config a" "rt_integrator b = rt_integrator a"
    "deterministicRuntime b = deterministicRuntime a" "rt_currentStep b = rt_currentStep a"
    "simulationTime b = simulationTime a" "initialized b = initialized a"
    "totalCollisions b = totalCollisions a"
  shows "similar a b"
  using assms by (cases a, cases b) (simp add: similar_def)

lemma processAction_similar:
  assumes "similar a b"
  shows "similar (processAction act a) (processAction act b)"
proof -
  note f = similar_fields[OF assms]
  have r: "same_registry (rt_entities a) (rt_entities b)" and s: "stateless (rt_integrator a)"
    using assms by (auto simp: similar_def)
  then have m: "map_of (rt_entities b) = map_of (rt_entities a)" by (simp add: same_registry_def)
  show ?thesis
    by (rule similarI)
       (auto simp: processAction_def m f s r same_registry_update
             split: option.splits ActionType.splits)
qed

lemma processActions_similar:
  "similar a b \<Longrightarrow> similar (processActions acts a) (processActions acts b)"
  unfolding processActions_def
  by (induction acts arbitrary: a b) (auto simp: processAction_similar)

lemma integrate_stateless:
  "stateless integ \<Longrightarrow> snd (integrate integ s dt) = integ"
  by (cases integ) (auto simp: stateless_def)

lemma physics_entity_stateless:
  "stateless integ \<Longrightarrow> snd (physics_entity dt g e integ) = integ"
  using integrate_stateless[of integ]
  by (auto simp: physics_entity_def Let_def split: prod.splits) (metis snd_conv)+

lemma physics_entities_stateless:
  assumes "stateless integ"
  shows "physics_entities dt g xs integ
           = (map (\<lambda>(k, e). (k, fst (physics_entity dt g e integ))) xs, integ)"
proof (induction xs)
  case Nil
  then show ?case by simp
next
  case (Cons x xs)
  obtain k e where x: "x = (k, e)" by (cases x)
  obtain e' i' where p: "physics_entity dt g e integ = (e', i')"
    by (cases "physics_entity dt g e integ")
  then have "i' = integ" using physics_entity_stateless[OF assms, of dt g e] by simp
  then show ?case by (simp add: x p Cons.IH)
qed

lemma physicsStep_similar:
  assumes "similar a b"
  shows "similar (physicsStep dt a) (physicsStep dt b)"
proof -
  note f = similar_fields[OF assms]
  have r: "same_registry (rt_entities a) (rt_entities b)" and s: "stateless (rt_integrator a)"
    using assms by (auto simp: similar_def)
  show ?thesis
    by (rule similarI)
       (simp_all add: physicsStep_def physics_entities_stateless[OF s] f s
          same_registry_map[OF r])
qed

lemma highest_Max:
  "foldl (\<lambda>h v. if v > h then v else h) h0 vs = Max (insert h0 (set vs))" for h0 :: real
proof (induction vs arbitrary: h0)
  case Nil
  then show ?case by simp
next
  case (Cons v vs)
  have "Max (insert (if h0 < v then v else h0) (set vs)) = Max (insert h0 (insert v (set vs)))"
  proof (cases "h0 < v")
    case True
    have "Max (insert h0 (insert v (set vs))) = max h0 (Max (insert v (set vs)))"
      by (rule Max_insert) auto
    also have "\<dots> = Max (insert v (set vs))"
    proof -
      have "v \<le> Max (insert v (set vs))" by (rule Max_ge) auto
      then have "h0 \<le> Max (insert v (set vs))" using True by linarith
      then show ?thesis by (simp add: max_def)
    qed
    finally show ?thesis using True by simp
  next
    case False
    have "Max (insert v (insert h0 (set vs))) = max v (Max (insert h0 (set vs)))"
      by (rule Max_insert) auto
    also have "\<dots> = Max (insert h0 (set vs))"
    proof -
      have "h0 \<le> Max (insert h0 (set vs))" by (rule Max_ge) auto
      then have "v \<le> Max (insert h0 (set vs))" using False by linarith
      then show ?thesis by (simp add: max_def)
    qed
    finally show ?thesis using False by (simp add: insert_commute)
  qed
  then show ?case by (simp add: Cons.IH)
qed

lemma highest_set: "set vs = set ws \<Longrightarrow> highest vs = highest ws"
  by (simp add: highest_def highest_Max)

lemma validateStability_similar:
  assumes "similar a b"
  shows "validateStability a = validateStability b"
proof -
  note f = similar_fields[OF assms]
  have r: "same_registry (rt_entities a) (rt_entities b)"
    using assms by (auto simp: similar_def)
  have s: "set (rt_entities a) = set (rt_entities b)" by (rule same_registry_set[OF r])
  have h: "highest (map g (filter P (map snd (rt_entities a))))
         = highest (map g (filter P (map snd (rt_entities b))))" for g :: "Entity \<Rightarrow> real" and P
    by (rule highest_set) (simp add: s)
  show ?thesis
    unfolding validateStability_def Let_def h f ..
qed

lemma alist_by_keys:
  "distinct (map fst zs) \<Longrightarrow> zs = map (\<lambda>k. (k, the (map_of zs k))) (map fst zs)"
proof (induction zs)
  case Nil
  then show ?case by simp
next
  case (Cons z zs)
  obtain k v where z: "z = (k, v)" by (cases z)
  define F where "F = (\<lambda>k'. (k', the (map_of ((k, v) # zs) k')))"
  have nk: "k \<notin> set (map fst zs)" using Cons.prems z by simp
  have "map F (map fst zs) = map (\<lambda>k'. (k', the (map_of zs k'))) (map fst zs)"
    unfolding F_def by (rule map_cong) (use nk in auto)
  moreover have "zs = map (\<lambda>k'. (k', the (map_of zs k'))) (map fst zs)"
    using Cons by simp
  ultimately have a: "map F (map fst zs) = zs" by (simp only:)
  have Fk: "F k = (k, v)" by (simp add: F_def)
  have "map F (map fst ((k, v) # zs)) = F k # map F (map fst zs)" by simp
  then have "(k, v) # zs = map F (map fst ((k, v) # zs))" by (simp only: a Fk)
  then show ?case unfolding z F_def .
qed

lemma map_of_sort_key:
  assumes "distinct (map fst zs)"
  shows "map_of (sort_key fst zs) = map_of zs"
proof (rule map_of_inject_set[THEN iffD2])
  show "distinct (map fst (sort_key fst zs))"
    using assms by (metis distinct_map distinct_sort set_sort)
  show "distinct (map fst zs)" by (rule assms)
  show "set (sort_key fst zs) = set zs" by simp
qed

lemma sort_key_same_registry:
  assumes "same_registry xs ys"
  shows "sort_key fst xs = sort_key fst ys"
proof -
  have dx: "distinct (map fst xs)" and dy: "distinct (map fst ys)"
    and m: "map_of xs = map_of ys"
    using assms by (auto simp: same_registry_def)
  have s: "set xs = set ys" by (rule same_registry_set[OF assms])
  have dsx: "distinct (map fst (sort_key fst xs))"
    using dx by (metis distinct_map distinct_sort set_sort)
  have dsy: "distinct (map fst (sort_key fst ys))"
    using dy by (metis distinct_map distinct_sort set_sort)
  have k: "map fst (sort_key fst xs) = map fst (sort_key fst ys)"
    by (rule sorted_distinct_set_unique) (use dsx dsy s in simp_all)
  have "sort_key fst xs
        = map (\<lambda>k. (k, the (map_of (sort_key fst xs) k))) (map fst (sort_key fst xs))"
    by (rule alist_by_keys[OF dsx])
  also have "\<dots> = map (\<lambda>k. (k, the (map_of (sort_key fst ys) k))) (map fst (sort_key fst ys))"
    by (simp only: k map_of_sort_key[OF dx] map_of_sort_key[OF dy] m)
  also have "\<dots> = sort_key fst ys"
    by (rule alist_by_keys[OF dsy, symmetric])
  finally show ?thesis .
qed

lemma computeStepHash_similar:
  assumes "similar a b"
  shows "computeStepHash a = computeStepHash b"
proof -
  note f = similar_fields[OF assms]
  have r: "same_registry (rt_entities a) (rt_entities b)"
    using assms by (auto simp: similar_def)
  show ?thesis
    unfolding computeStepHash_def Let_def sort_key_same_registry[OF r] f ..
qed

lemma step_similar:
  assumes "similar a b"
  shows "rel_sum (=) similar (step acts a) (step acts b)"
proof -
  define a2 where "a2 = processActions acts (a\<lparr>initialized := True\<rparr>)"
  define b2 where "b2 = processActions acts (b\<lparr>initialized := True\<rparr>)"
  define a3 where "a3 = physicsStep (timestep (rt_config a2)) a2"
  define b3 where "b3 = physicsStep (timestep (rt_config b2)) b2"
  have "similar (a\<lparr>initialized := True\<rparr>) (b\<lparr>initialized := True\<rparr>)"
    using assms similar_fields[OF assms]
    by (intro similarI) (simp_all add: similar_def)
  then have s2: "similar a2 b2" unfolding a2_def b2_def by (rule processActions_similar)
  have s3: "similar a3 b3"
    unfolding a3_def b3_def similar_fields(1)[OF s2] by (rule physicsStep_similar[OF s2])
  note f3 = similar_fields[OF s3]
  have v: "validateStability a3 = validateStability b3" by (rule validateStability_similar[OF s3])
  define a4 where "a4 = a3\<lparr>rt_currentStep := rt_currentStep a3 + 1,
                           simulationTime := simulationTime a3 + timestep (rt_config a3)\<rparr>"
  define b4 where "b4 = b3\<lparr>rt_currentStep := rt_currentStep b3 + 1,
                           simulationTime := simulationTime b3 + timestep (rt_config b3)\<rparr>"
  have s4: "similar a4 b4"
    unfolding a4_def b4_def using s3 f3
    by (intro similarI) (simp_all add: similar_def)
  note f4 = similar_fields[OF s4]
  have h: "computeStepHash a4 = computeStepHash b4" by (rule computeStepHash_similar[OF s4])
  have s5: "similar (a4\<lparr>deterministicRuntime :=
                         recordStepHash (computeStepHash a4) (deterministicRuntime a4)\<rparr>)
                    (b4\<lparr>deterministicRuntime :=
                         recordStepHash (computeStepHash b4) (deterministicRuntime b4)\<rparr>)"
    using s4 f4 h by (intro similarI) (simp_all add: similar_def)
  have ea: "step acts a =
     (case (if strictMode (rt_config a3) then validateStability a3 else None) of
        Some err \<Rightarrow> Inl err
      | None \<Rightarrow> Inr (a4\<lparr>deterministicRuntime :=
                         recordStepHash (computeStepHash a4) (deterministicRuntime a4)\<rparr>))"
    unfolding step_def a4_def a3_def a2_def Let_def by (rule refl)
  have eb: "step acts b =
     (case (if strictMode (rt_config b3) then validateStability b3 else None) of
        Some err \<Rightarrow> Inl err
      | None \<Rightarrow> Inr (b4\<lparr>deterministicRuntime :=
                         recordStepHash (computeStepHash b4) (deterministicRuntime b4)\<rparr>))"
    unfolding step_def b4_def b3_def b2_def Let_def by (rule refl)
  show ?thesis
    unfolding ea eb using s5 v f3(1) by (auto split: option.splits)
qed

lemma run_similar:
  "similar a b \<Longrightarrow> rel_sum (=) similar (run actionss a) (run actionss b)"
proof (induction actionss arbitrary: a b)
  case Nil
  then show ?case by simp
next
  case (Cons acts rest)
  from step_similar[OF Cons.prems, of acts] show ?case
    by (cases "step acts a"; cases "step acts b") (auto intro: Cons.IH)
qed

lemma hashes_after_similar:
  assumes "similar a b"
  shows "hashes_after actionss a = hashes_after actionss b"
proof -
  from run_similar[OF assms, of actionss] show ?thesis
    by (cases "run actionss a"; cases "run actionss b")
       (auto simp: hashes_after_def getStepHashes_def getDeterministicHash_def
          dest: similar_fields(3))
qed

lemma ent_id_createEntity: "ent_id (createEntity d) = desc_id d"
  by (simp add: createEntity_def)

lemma addEntities_entities:
  "addEntities ds rt
     = rt\<lparr>rt_entities := foldl (\<lambda>m (k, v). AList.update k v m) (rt_entities rt)
                              (map (\<lambda>d. (desc_id d, createEntity d)) ds)\<rparr>"
proof (induction ds arbitrary: rt)
  case Nil
  then show ?case by (simp add: addEntities_def)
next
  case (Cons d ds)
  have "addEntities (d # ds) rt = addEntities ds (addEntity d rt)"
    by (simp add: addEntities_def)
  then show ?case
    by (simp add: Cons.IH addEntity_def Let_def ent_id_createEntity)
qed

lemma session_entities:
  assumes "distinct (map desc_id ds)"
  shows "rt_entities (session cfg ds) = map (\<lambda>d. (desc_id d, createEntity d)) ds"
proof -
  have k: "map fst (map (\<lambda>d. (desc_id d, createEntity d)) ds) = map desc_id ds"
    by (induction ds) auto
  have "distinct (map fst [] @ map fst (map (\<lambda>d. (desc_id d, createEntity d)) ds))"
    unfolding k using assms by simp
  from foldl_update_fresh_gen[OF this] show ?thesis
    by (simp add: session_def addEntities_entities SimulationRuntime_new_def)
qed

lemma stateless_order_independent:
  assumes nv: "integrator cfg \<noteq> Some VerletT"
    and d: "distinct (map desc_id ds)" and d': "distinct (map desc_id ds')"
    and s: "set ds' = set ds"
  shows "hashes_after actionss (session cfg ds) = hashes_after actionss (session cfg ds')"
proof (rule hashes_after_similar)
  have k: "map fst (map (\<lambda>d. (desc_id d, createEntity d)) zs) = map desc_id zs" for zs
    by (induction zs) auto
  have dx: "distinct (map fst (map (\<lambda>d. (desc_id d, createEntity d)) ds))"
    unfolding k by (rule d)
  have dy: "distinct (map fst (map (\<lambda>d. (desc_id d, createEntity d)) ds'))"
    unfolding k by (rule d')
  have "set (map (\<lambda>d. (desc_id d, createEntity d)) ds)
        = set (map (\<lambda>d. (desc_id d, createEntity d)) ds')"
    using s by simp
  then have "map_of (map (\<lambda>d. (desc_id d, createEntity d)) ds)
        = map_of (map (\<lambda>d. (desc_id d, createEntity d)) ds')"
    by (rule map_of_inject_set[OF dx dy, THEN iffD2])
  with dx dy have reg:
    "same_registry (rt_entities (session cfg ds)) (rt_entities (session cfg ds'))"
    unfolding same_registry_def session_entities[OF d] session_entities[OF d']
    by (intro conjI)
  have st: "stateless (rt_integrator (session cfg ds))"
    using nv
    by (cases "integrator cfg")
       (auto simp: session_def addEntities_entities SimulationRuntime_new_def
          createIntegrator_def stateless_def split: IntegratorType.splits)
  have "session cfg ds' = (session cfg ds)\<lparr>rt_entities := rt_entities (session cfg ds')\<rparr>"
    by (simp add: session_def addEntities_entities)
  with reg st show "similar (session cfg ds) (session cfg ds')"
    by (simp add: similar_def)
qed

lemma stateless_order_independent_example: "hashes_after [[]] (session (example_config SemiImplicitEulerT) [robot_r1, drone_d1])
    = hashes_after [[]] (session (example_config SemiImplicitEulerT) [drone_d1, robot_r1])"
  by (rule stateless_order_independent)
     (auto simp: example_config_def robot_r1_def drone_d1_def example_descriptor_def)

end
